theory Spec2Isabelle
  imports Main
begin

section \<open>Outcomes of a call\<close>

text \<open>
  No method of \<^verbatim>\<open>Channel.hpp\<close> throws. What a call can do besides returning is
  \<^item> dereference the null \<^verbatim>\<open>internal\<close> of a moved-from handle (\<open>NullDeref\<close>),
  \<^item> dereference a pointer whose object has been freed (\<open>Dangling\<close>),
  \<^item> compute \<^verbatim>\<open>% buffer.size()\<close> with size zero (\<open>DivByZero\<close>),
  \<^item> index \<^verbatim>\<open>buffer\<close> outside the array (\<open>OutOfBounds\<close>),
  \<^item> wait in \<^verbatim>\<open>acquire()\<close> on a semaphore whose count is zero (\<open>Blocked\<close>): the call
    does not return in that state, it returns only after the peer has released.
  The first four are undefined behaviour in C++; the model makes each of them a value.
\<close>

datatype error = NullDeref | Dangling | DivByZero | OutOfBounds | Blocked

section \<open>\<^verbatim>\<open>std::counting_semaphore\<close>\<close>

text \<open>
  The semaphore is its count. \<^verbatim>\<open>try_acquire\<close> decrements a positive count and reports
  whether it did (the standard also lets it fail on a positive count; the model takes the
  deterministic reading), \<^verbatim>\<open>acquire\<close> waits while the count is zero, \<^verbatim>\<open>release\<close> adds one.
  The counts of a channel never exceed \<^verbatim>\<open>Size\<close>, an \<^verbatim>\<open>int\<close>, so the semaphore's maximum
  (\<^verbatim>\<open>numeric_limits<int>::max()\<close>) is not reached.
\<close>

type_synonym counting_semaphore = nat

definition try_acquire :: "counting_semaphore \<Rightarrow> bool \<times> counting_semaphore" where
  "try_acquire c = (if 0 < c then (True, c - 1) else (False, c))"

definition acquire :: "counting_semaphore \<Rightarrow> error + counting_semaphore" where
  "acquire c = (if 0 < c then Inr (c - 1) else Inl Blocked)"

definition release :: "counting_semaphore \<Rightarrow> counting_semaphore" where
  "release c = c + 1"

section \<open>The shared state: \<^verbatim>\<open>struct Data\<close>\<close>

text \<open>
  \<^verbatim>\<open>buffer.size()\<close> is the length of \<open>buffer\<close>. \<open>head\<close> and \<open>tail\<close> are \<^verbatim>\<open>size_t\<close>; they
  stay below \<^verbatim>\<open>Size\<close>, so \<^verbatim>\<open>head + 1\<close> does not wrap and they are natural numbers here.
\<close>

record 'a Data =
  "open" :: bool
  head :: nat
  tail :: nat
  buffer :: "'a list"
  read :: counting_semaphore
  "write" :: counting_semaphore

text \<open>
  The default member initialisers. The array has no initialiser of its own: \<open>init i\<close> is
  whatever element \<open>i\<close> holds after construction.
\<close>

definition Data_new :: "nat \<Rightarrow> (nat \<Rightarrow> 'a) \<Rightarrow> 'a Data" where
  "Data_new Size init =
     \<lparr>open = True, head = 0, tail = 0, buffer = map init [0..<Size], read = 0, write = Size\<rparr>"

section \<open>The method bodies, on the object \<^verbatim>\<open>*internal\<close>\<close>

text \<open>
  \<^verbatim>\<open>getHead\<close>: the new head is computed first, then the element is moved out of slot
  \<open>head\<close>, then \<open>head\<close> is stored. What a move leaves behind depends on the element type:
  \<open>moved_from x\<close> is the state of an object that held \<open>x\<close> after it has been moved from.
  For \<^verbatim>\<open>int\<close>, the element type of the repository's tests, a move is a copy and
  \<open>moved_from\<close> is the identity.
\<close>

definition getHead :: "('a \<Rightarrow> 'a) \<Rightarrow> 'a Data \<Rightarrow> error + ('a \<times> 'a Data)" where
  "getHead moved_from d =
     (if length (buffer d) = 0 then Inl DivByZero
      else let new_head = (head d + 1) mod length (buffer d) in
        if head d < length (buffer d)
        then Inr (buffer d ! head d,
                  d\<lparr>buffer := (buffer d)[head d := moved_from (buffer d ! head d)],
                    head := new_head\<rparr>)
        else Inl OutOfBounds)"

definition writeTail :: "'a \<Rightarrow> 'a Data \<Rightarrow> error + 'a Data" where
  "writeTail data d =
     (if tail d < length (buffer d)
      then Inr (d\<lparr>buffer := (buffer d)[tail d := data],
                 tail := (tail d + 1) mod length (buffer d)\<rparr>)
      else Inl OutOfBounds)"

definition is_open :: "'a Data \<Rightarrow> error + (bool \<times> 'a Data)" where
  "is_open d = Inr (open d, d)"

text \<open>The assignment \<^verbatim>\<open>internal->open = false\<close> of both \<^verbatim>\<open>close\<close> methods.\<close>

definition mark_closed :: "'a Data \<Rightarrow> error + (unit \<times> 'a Data)" where
  "mark_closed d = Inr ((), d\<lparr>open := False\<rparr>)"

text \<open>
  \<^verbatim>\<open>!is_open() || !internal->read.try_acquire()\<close> evaluates left to right and stops at
  the first true operand: a closed channel's semaphore is not touched.
\<close>

definition try_receive :: "('a \<Rightarrow> 'a) \<Rightarrow> 'a Data \<Rightarrow> error + ('a option \<times> 'a Data)" where
  "try_receive moved_from d =
     (if open d then
        (case try_acquire (read d) of
           (False, c) \<Rightarrow> Inr (None, d)
         | (True, c) \<Rightarrow>
             (case getHead moved_from (d\<lparr>read := c\<rparr>) of
                Inl e \<Rightarrow> Inl e
              | Inr (v, d1) \<Rightarrow> Inr (Some v, d1)))
      else Inr (None, d))"

definition receive :: "('a \<Rightarrow> 'a) \<Rightarrow> 'a Data \<Rightarrow> error + ('a \<times> 'a Data)" where
  "receive moved_from d =
     (case acquire (read d) of
        Inl e \<Rightarrow> Inl e
      | Inr c \<Rightarrow>
          (case getHead moved_from (d\<lparr>read := c\<rparr>) of
             Inl e \<Rightarrow> Inl e
           | Inr (tmp, d1) \<Rightarrow> Inr (tmp, d1\<lparr>write := release (write d1)\<rparr>)))"

definition try_send :: "'a \<Rightarrow> 'a Data \<Rightarrow> error + (bool \<times> 'a Data)" where
  "try_send data d =
     (if open d then
        (case try_acquire (write d) of
           (False, c) \<Rightarrow> Inr (False, d)
         | (True, c) \<Rightarrow>
             (case writeTail data (d\<lparr>write := c\<rparr>) of
                Inl e \<Rightarrow> Inl e
              | Inr d1 \<Rightarrow> Inr (True, d1\<lparr>read := release (read d1)\<rparr>)))
      else Inr (False, d))"

definition send :: "'a \<Rightarrow> 'a Data \<Rightarrow> error + (unit \<times> 'a Data)" where
  "send data d =
     (case acquire (write d) of
        Inl e \<Rightarrow> Inl e
      | Inr c \<Rightarrow>
          (case writeTail data (d\<lparr>write := c\<rparr>) of
             Inl e \<Rightarrow> Inl e
           | Inr d1 \<Rightarrow> Inr ((), d1\<lparr>read := release (read d1)\<rparr>)))"

section \<open>The heap and \<^verbatim>\<open>std::shared_ptr\<close>\<close>

text \<open>
  \<^verbatim>\<open>make_shared\<close> allocates the object together with its reference count. An address is
  an index into the heap; a freed cell is \<open>None\<close>. Copying a pointer adds one to the
  count, destroying or resetting one subtracts one and frees the cell at zero; the null
  pointer has no count.
\<close>

type_synonym addr = nat

record 'a ctrl =
  refs :: nat
  obj :: "'a Data"

type_synonym 'a heap = "'a ctrl option list"

definition cell :: "'a heap \<Rightarrow> addr \<Rightarrow> 'a ctrl option" where
  "cell hp a = (if a < length hp then hp ! a else None)"

definition make_shared :: "'a Data \<Rightarrow> 'a heap \<Rightarrow> addr \<times> 'a heap" where
  "make_shared d hp = (length hp, hp @ [Some \<lparr>refs = 1, obj = d\<rparr>])"

definition sp_copy :: "addr option \<Rightarrow> 'a heap \<Rightarrow> error + 'a heap" where
  "sp_copy p hp =
     (case p of
        None \<Rightarrow> Inr hp
      | Some a \<Rightarrow>
          (case cell hp a of
             None \<Rightarrow> Inl Dangling
           | Some c \<Rightarrow> Inr (hp[a := Some (c\<lparr>refs := refs c + 1\<rparr>)])))"

definition sp_release :: "addr option \<Rightarrow> 'a heap \<Rightarrow> error + 'a heap" where
  "sp_release p hp =
     (case p of
        None \<Rightarrow> Inr hp
      | Some a \<Rightarrow>
          (case cell hp a of
             None \<Rightarrow> Inl Dangling
           | Some c \<Rightarrow>
               Inr (hp[a := (if refs c \<le> 1 then None else Some (c\<lparr>refs := refs c - 1\<rparr>))])))"

text \<open>
  A method that reads or writes through \<^verbatim>\<open>internal->\<close> runs its body on the object the
  pointer refers to and leaves the result there.
\<close>

definition via_internal ::
  "addr option \<Rightarrow> ('a Data \<Rightarrow> error + ('r \<times> 'a Data)) \<Rightarrow> 'a heap \<Rightarrow> error + ('r \<times> 'a heap)" where
  "via_internal p body hp =
     (case p of
        None \<Rightarrow> Inl NullDeref
      | Some a \<Rightarrow>
          (case cell hp a of
             None \<Rightarrow> Inl Dangling
           | Some c \<Rightarrow>
               (case body (obj c) of
                  Inl e \<Rightarrow> Inl e
                | Inr (r, d1) \<Rightarrow> Inr (r, hp[a := Some (c\<lparr>obj := d1\<rparr>)]))))"

section \<open>The handles\<close>

datatype ReceiverChannel = ReceiverChannel (rx_internal: "addr option")

datatype SenderChannel = SenderChannel (tx_internal: "addr option")

text \<open>
  The private constructors. The sender's takes the pointer by value: the argument is a
  copy, the member \<^verbatim>\<open>internal\<close> is a copy of the argument, and the argument is destroyed
  when the constructor returns.
\<close>

definition ReceiverChannel_new :: "nat \<Rightarrow> (nat \<Rightarrow> 'a) \<Rightarrow> 'a heap \<Rightarrow> ReceiverChannel \<times> 'a heap" where
  "ReceiverChannel_new Size init hp =
     (case make_shared (Data_new Size init) hp of (a, hp1) \<Rightarrow> (ReceiverChannel (Some a), hp1))"

definition SenderChannel_new :: "addr option \<Rightarrow> 'a heap \<Rightarrow> error + (SenderChannel \<times> 'a heap)" where
  "SenderChannel_new ptr hp =
     (case sp_copy ptr hp of
        Inl e \<Rightarrow> Inl e
      | Inr hp1 \<Rightarrow>
          (case sp_copy ptr hp1 of
             Inl e \<Rightarrow> Inl e
           | Inr hp2 \<Rightarrow>
               (case sp_release ptr hp2 of
                  Inl e \<Rightarrow> Inl e
                | Inr hp3 \<Rightarrow> Inr (SenderChannel ptr, hp3))))"

text \<open>
  The move constructors: the new handle copies the pointer, then the donor's pointer is
  set to null. The result is (new handle, donor afterwards).
\<close>

definition ReceiverChannel_move ::
  "ReceiverChannel \<Rightarrow> 'a heap \<Rightarrow> error + ((ReceiverChannel \<times> ReceiverChannel) \<times> 'a heap)" where
  "ReceiverChannel_move other hp =
     (case sp_copy (rx_internal other) hp of
        Inl e \<Rightarrow> Inl e
      | Inr hp1 \<Rightarrow>
          (case sp_release (rx_internal other) hp1 of
             Inl e \<Rightarrow> Inl e
           | Inr hp2 \<Rightarrow> Inr ((ReceiverChannel (rx_internal other), ReceiverChannel None), hp2)))"

definition SenderChannel_move ::
  "SenderChannel \<Rightarrow> 'a heap \<Rightarrow> error + ((SenderChannel \<times> SenderChannel) \<times> 'a heap)" where
  "SenderChannel_move other hp =
     (case sp_copy (tx_internal other) hp of
        Inl e \<Rightarrow> Inl e
      | Inr hp1 \<Rightarrow>
          (case sp_release (tx_internal other) hp1 of
             Inl e \<Rightarrow> Inl e
           | Inr hp2 \<Rightarrow> Inr ((SenderChannel (tx_internal other), SenderChannel None), hp2)))"

definition ReceiverChannel_close :: "ReceiverChannel \<Rightarrow> 'a heap \<Rightarrow> error + (unit \<times> 'a heap)" where
  "ReceiverChannel_close r hp =
     (case rx_internal r of
        None \<Rightarrow> Inr ((), hp)
      | Some a \<Rightarrow> via_internal (Some a) mark_closed hp)"

definition SenderChannel_close :: "SenderChannel \<Rightarrow> 'a heap \<Rightarrow> error + (unit \<times> 'a heap)" where
  "SenderChannel_close t hp =
     (case tx_internal t of
        None \<Rightarrow> Inr ((), hp)
      | Some a \<Rightarrow> via_internal (Some a) mark_closed hp)"

text \<open>The destructors: \<^verbatim>\<open>close()\<close>, then the member \<^verbatim>\<open>internal\<close> is destroyed.\<close>

definition ReceiverChannel_destroy :: "ReceiverChannel \<Rightarrow> 'a heap \<Rightarrow> error + 'a heap" where
  "ReceiverChannel_destroy r hp =
     (case ReceiverChannel_close r hp of
        Inl e \<Rightarrow> Inl e
      | Inr (u, hp1) \<Rightarrow> sp_release (rx_internal r) hp1)"

definition SenderChannel_destroy :: "SenderChannel \<Rightarrow> 'a heap \<Rightarrow> error + 'a heap" where
  "SenderChannel_destroy t hp =
     (case SenderChannel_close t hp of
        Inl e \<Rightarrow> Inl e
      | Inr (u, hp1) \<Rightarrow> sp_release (tx_internal t) hp1)"

definition ReceiverChannel_is_open :: "ReceiverChannel \<Rightarrow> 'a heap \<Rightarrow> error + (bool \<times> 'a heap)" where
  "ReceiverChannel_is_open r hp = via_internal (rx_internal r) is_open hp"

definition SenderChannel_is_open :: "SenderChannel \<Rightarrow> 'a heap \<Rightarrow> error + (bool \<times> 'a heap)" where
  "SenderChannel_is_open t hp = via_internal (tx_internal t) is_open hp"

definition ReceiverChannel_try_receive ::
  "('a \<Rightarrow> 'a) \<Rightarrow> ReceiverChannel \<Rightarrow> 'a heap \<Rightarrow> error + ('a option \<times> 'a heap)" where
  "ReceiverChannel_try_receive moved_from r hp =
     via_internal (rx_internal r) (try_receive moved_from) hp"

definition ReceiverChannel_receive ::
  "('a \<Rightarrow> 'a) \<Rightarrow> ReceiverChannel \<Rightarrow> 'a heap \<Rightarrow> error + ('a \<times> 'a heap)" where
  "ReceiverChannel_receive moved_from r hp =
     via_internal (rx_internal r) (receive moved_from) hp"

definition SenderChannel_try_send :: "SenderChannel \<Rightarrow> 'a \<Rightarrow> 'a heap \<Rightarrow> error + (bool \<times> 'a heap)" where
  "SenderChannel_try_send t data hp = via_internal (tx_internal t) (try_send data) hp"

definition SenderChannel_send :: "SenderChannel \<Rightarrow> 'a \<Rightarrow> 'a heap \<Rightarrow> error + (unit \<times> 'a heap)" where
  "SenderChannel_send t data hp = via_internal (tx_internal t) (send data) hp"

section \<open>The factory\<close>

text \<open>
  \<^verbatim>\<open>create_channel\<close> builds the receiver, builds the sender from the receiver's pointer,
  moves both into the pair it returns, and then its two local handles, now moved-from, are
  destroyed in reverse order of construction.
\<close>

type_synonym 'a world = "(ReceiverChannel \<times> SenderChannel) \<times> 'a heap"

definition create_channel :: "nat \<Rightarrow> (nat \<Rightarrow> 'a) \<Rightarrow> 'a heap \<Rightarrow> error + 'a world" where
  "create_channel Size init hp =
     (case ReceiverChannel_new Size init hp of (rx, hp1) \<Rightarrow>
      (case SenderChannel_new (rx_internal rx) hp1 of Inl e \<Rightarrow> Inl e | Inr (tx, hp2) \<Rightarrow>
      (case ReceiverChannel_move rx hp2 of Inl e \<Rightarrow> Inl e | Inr ((rx1, rx0), hp3) \<Rightarrow>
      (case SenderChannel_move tx hp3 of Inl e \<Rightarrow> Inl e | Inr ((tx1, tx0), hp4) \<Rightarrow>
      (case SenderChannel_destroy tx0 hp4 of Inl e \<Rightarrow> Inl e | Inr hp5 \<Rightarrow>
      (case ReceiverChannel_destroy rx0 hp5 of Inl e \<Rightarrow> Inl e | Inr hp6 \<Rightarrow>
         Inr ((rx1, tx1), hp6)))))))"

section \<open>Sequences of operations on one channel\<close>

text \<open>
  An operation of the sender or of the receiver, and what its call returned. A sequence of
  operations is one interleaving of the two threads' completed calls. \<open>RxMove\<close> and
  \<open>TxMove\<close> hand the handle to a new owner (as \<^verbatim>\<open>std::thread(reader, std::move(rx))\<close>
  does) and destroy the donor.
\<close>

datatype 'a op =
    Send 'a | TrySend 'a | Receive | TryReceive
  | RxClose | TxClose | RxIsOpen | TxIsOpen | RxMove | TxMove

datatype 'a event =
    SendRet 'a | TrySendRet 'a bool | ReceiveRet 'a | TryReceiveRet "'a option"
  | CloseRet | IsOpenRet bool | MoveRet

fun step :: "('a \<Rightarrow> 'a) \<Rightarrow> 'a op \<Rightarrow> 'a world \<Rightarrow> error + ('a event \<times> 'a world)" where
  "step moved_from (Send v) ((r, t), hp) =
     (case SenderChannel_send t v hp of
        Inl e \<Rightarrow> Inl e | Inr (u, hp1) \<Rightarrow> Inr (SendRet v, ((r, t), hp1)))"
| "step moved_from (TrySend v) ((r, t), hp) =
     (case SenderChannel_try_send t v hp of
        Inl e \<Rightarrow> Inl e | Inr (b, hp1) \<Rightarrow> Inr (TrySendRet v b, ((r, t), hp1)))"
| "step moved_from Receive ((r, t), hp) =
     (case ReceiverChannel_receive moved_from r hp of
        Inl e \<Rightarrow> Inl e | Inr (v, hp1) \<Rightarrow> Inr (ReceiveRet v, ((r, t), hp1)))"
| "step moved_from TryReceive ((r, t), hp) =
     (case ReceiverChannel_try_receive moved_from r hp of
        Inl e \<Rightarrow> Inl e | Inr (v, hp1) \<Rightarrow> Inr (TryReceiveRet v, ((r, t), hp1)))"
| "step moved_from RxClose ((r, t), hp) =
     (case ReceiverChannel_close r hp of
        Inl e \<Rightarrow> Inl e | Inr (u, hp1) \<Rightarrow> Inr (CloseRet, ((r, t), hp1)))"
| "step moved_from TxClose ((r, t), hp) =
     (case SenderChannel_close t hp of
        Inl e \<Rightarrow> Inl e | Inr (u, hp1) \<Rightarrow> Inr (CloseRet, ((r, t), hp1)))"
| "step moved_from RxIsOpen ((r, t), hp) =
     (case ReceiverChannel_is_open r hp of
        Inl e \<Rightarrow> Inl e | Inr (b, hp1) \<Rightarrow> Inr (IsOpenRet b, ((r, t), hp1)))"
| "step moved_from TxIsOpen ((r, t), hp) =
     (case SenderChannel_is_open t hp of
        Inl e \<Rightarrow> Inl e | Inr (b, hp1) \<Rightarrow> Inr (IsOpenRet b, ((r, t), hp1)))"
| "step moved_from RxMove ((r, t), hp) =
     (case ReceiverChannel_move r hp of
        Inl e \<Rightarrow> Inl e
      | Inr ((r1, r0), hp1) \<Rightarrow>
          (case ReceiverChannel_destroy r0 hp1 of
             Inl e \<Rightarrow> Inl e | Inr hp2 \<Rightarrow> Inr (MoveRet, ((r1, t), hp2))))"
| "step moved_from TxMove ((r, t), hp) =
     (case SenderChannel_move t hp of
        Inl e \<Rightarrow> Inl e
      | Inr ((t1, t0), hp1) \<Rightarrow>
          (case SenderChannel_destroy t0 hp1 of
             Inl e \<Rightarrow> Inl e | Inr hp2 \<Rightarrow> Inr (MoveRet, ((r, t1), hp2))))"

fun run :: "('a \<Rightarrow> 'a) \<Rightarrow> 'a op list \<Rightarrow> 'a world \<Rightarrow> error + ('a event list \<times> 'a world)" where
  "run moved_from [] w = Inr ([], w)"
| "run moved_from (x # xs) w =
     (case step moved_from x w of
        Inl e \<Rightarrow> Inl e
      | Inr (ev, w1) \<Rightarrow>
          (case run moved_from xs w1 of
             Inl e \<Rightarrow> Inl e
           | Inr (evs, w2) \<Rightarrow> Inr (ev # evs, w2)))"

text \<open>The values handed over by the successful sends, and by the successful receives.\<close>

fun sent :: "'a event list \<Rightarrow> 'a list" where
  "sent [] = []"
| "sent (SendRet v # evs) = v # sent evs"
| "sent (TrySendRet v True # evs) = v # sent evs"
| "sent (ev # evs) = sent evs"

fun received :: "'a event list \<Rightarrow> 'a list" where
  "received [] = []"
| "received (ReceiveRet v # evs) = v # received evs"
| "received (TryReceiveRet (Some v) # evs) = v # received evs"
| "received (ev # evs) = received evs"

text \<open>The shared state a world's receiver handle refers to.\<close>

definition shared :: "'a world \<Rightarrow> 'a Data option" where
  "shared w =
     (case rx_internal (fst (fst w)) of
        None \<Rightarrow> None
      | Some a \<Rightarrow> map_option obj (cell (snd w) a))"

text \<open>
  Names for the concrete worlds of the examples below: one channel of \<^verbatim>\<open>int\<close>s at address
  0 of an otherwise empty heap, with both handles referring to it.
\<close>

abbreviation sample_rx :: ReceiverChannel where
  "sample_rx \<equiv> ReceiverChannel (Some 0)"

abbreviation sample_tx :: SenderChannel where
  "sample_tx \<equiv> SenderChannel (Some 0)"

abbreviation sample_heap :: "nat \<Rightarrow> nat Data \<Rightarrow> nat heap" where
  "sample_heap n d \<equiv> [Some \<lparr>refs = n, obj = d\<rparr>]"

abbreviation sample_world :: "nat Data \<Rightarrow> nat world" where
  "sample_world d \<equiv> ((sample_rx, sample_tx), sample_heap 2 d)"

section \<open>The ring as a queue\<close>

text \<open>
  The invariant of the ring: the two counts together never exceed the capacity and, in a
  channel of positive capacity, \<open>head\<close> is inside the array and \<open>tail\<close> is \<open>read\<close> slots
  ahead of it.
\<close>

definition ring_ok :: "'a Data \<Rightarrow> bool" where
  "ring_ok d \<longleftrightarrow>
     read d + write d \<le> length (buffer d) \<and>
     (0 < length (buffer d) \<longrightarrow>
        head d < length (buffer d) \<and> tail d = (head d + read d) mod length (buffer d))"

text \<open>
  The queue the ring represents: the \<open>read\<close> slots from \<open>head\<close> on, oldest first.
\<close>

definition pending :: "'a Data \<Rightarrow> 'a list" where
  "pending d = map (\<lambda>i. buffer d ! ((head d + i) mod length (buffer d))) [0..<read d]"

text \<open>What an operation does to the shared state when both handles refer to it.\<close>

fun effect :: "('a \<Rightarrow> 'a) \<Rightarrow> 'a op \<Rightarrow> 'a Data \<Rightarrow> error + ('a event \<times> 'a Data)" where
  "effect moved_from (Send v) d =
     (case send v d of Inl e \<Rightarrow> Inl e | Inr (u, d1) \<Rightarrow> Inr (SendRet v, d1))"
| "effect moved_from (TrySend v) d =
     (case try_send v d of Inl e \<Rightarrow> Inl e | Inr (b, d1) \<Rightarrow> Inr (TrySendRet v b, d1))"
| "effect moved_from Receive d =
     (case receive moved_from d of Inl e \<Rightarrow> Inl e | Inr (v, d1) \<Rightarrow> Inr (ReceiveRet v, d1))"
| "effect moved_from TryReceive d =
     (case try_receive moved_from d of
        Inl e \<Rightarrow> Inl e | Inr (v, d1) \<Rightarrow> Inr (TryReceiveRet v, d1))"
| "effect moved_from RxClose d = Inr (CloseRet, d\<lparr>open := False\<rparr>)"
| "effect moved_from TxClose d = Inr (CloseRet, d\<lparr>open := False\<rparr>)"
| "effect moved_from RxIsOpen d = Inr (IsOpenRet (open d), d)"
| "effect moved_from TxIsOpen d = Inr (IsOpenRet (open d), d)"
| "effect moved_from RxMove d = Inr (MoveRet, d)"
| "effect moved_from TxMove d = Inr (MoveRet, d)"

text \<open>
  Both handles of the world refer to the live cell at \<open>a\<close>, which holds \<open>n\<close> references
  and the state \<open>d\<close>.
\<close>

definition attached :: "'a world \<Rightarrow> addr \<Rightarrow> nat \<Rightarrow> 'a Data \<Rightarrow> bool" where
  "attached w a n d \<longleftrightarrow>
     rx_internal (fst (fst w)) = Some a \<and> tx_internal (snd (fst w)) = Some a \<and>
     cell (snd w) a = Some \<lparr>refs = n, obj = d\<rparr> \<and> 0 < n"


section \<open>Slots of the ring\<close>

lemma mod_slot_distinct:
  fixes h :: nat
  assumes "i < r" "r < n"
  shows "(h + i) mod n \<noteq> (h + r) mod n"
proof
  assume "(h + i) mod n = (h + r) mod n"
  then have "(h + r) mod n = (h + i) mod n" by simp
  moreover have "h + i \<le> h + r" using assms by simp
  ultimately have "n dvd (h + r) - (h + i)" by (simp add: mod_eq_dvd_iff_nat)
  then have "n dvd r - i" by simp
  moreover have "0 < r - i" "r - i < n" using assms by simp_all
  ultimately show False by (meson nat_dvd_not_less)
qed

lemma writeTail_ring:
  assumes "ring_ok d" "0 < write d"
  shows "\<exists>d1. writeTail v (d\<lparr>write := write d - 1\<rparr>) = Inr d1 \<and>
           ring_ok (d1\<lparr>read := release (read d1)\<rparr>) \<and>
           length (buffer d1) = length (buffer d) \<and> open d1 = open d \<and>
           pending (d1\<lparr>read := release (read d1)\<rparr>) = pending d @ [v]"
proof -
  let ?n = "length (buffer d)"
  from assms have n: "0 < ?n" and rn: "read d < ?n" by (auto simp: ring_ok_def)
  with assms have h: "head d < ?n" and t: "tail d = (head d + read d) mod ?n"
    by (auto simp: ring_ok_def)
  have tl: "tail d < ?n" using t n by simp
  let ?d1 = "d\<lparr>write := write d - 1, buffer := (buffer d)[tail d := v],
                 tail := (tail d + 1) mod ?n\<rparr>"
  have w: "writeTail v (d\<lparr>write := write d - 1\<rparr>) = Inr ?d1"
    using tl by (simp add: writeTail_def)
  have t1: "(tail d + 1) mod ?n = (head d + (read d + 1)) mod ?n"
    unfolding t by (simp add: mod_Suc_eq)
  have ok: "ring_ok (?d1\<lparr>read := release (read ?d1)\<rparr>)"
    using assms h t1 by (simp add: ring_ok_def release_def)
  have old: "(buffer d)[tail d := v] ! ((head d + i) mod ?n) = buffer d ! ((head d + i) mod ?n)"
    if "i < read d" for i
    using mod_slot_distinct[OF that rn, of "head d"] t by simp
  have new: "(buffer d)[tail d := v] ! ((head d + read d) mod ?n) = v"
    using tl t by simp
  have "pending (?d1\<lparr>read := release (read ?d1)\<rparr>) = pending d @ [v]"
    using old new by (simp add: pending_def release_def)
  with w ok show ?thesis by simp
qed

lemma getHead_ring:
  assumes "ring_ok d" "0 < read d"
  shows "\<exists>v d1. getHead moved_from (d\<lparr>read := read d - 1\<rparr>) = Inr (v, d1) \<and>
           ring_ok d1 \<and> ring_ok (d1\<lparr>write := release (write d1)\<rparr>) \<and>
           length (buffer d1) = length (buffer d) \<and> open d1 = open d \<and>
           pending d = v # pending d1 \<and>
           pending (d1\<lparr>write := release (write d1)\<rparr>) = pending d1"
proof -
  let ?n = "length (buffer d)"
  from assms have n: "0 < ?n" by (auto simp: ring_ok_def)
  with assms have h: "head d < ?n" and t: "tail d = (head d + read d) mod ?n"
    and c: "read d + write d \<le> ?n"
    by (auto simp: ring_ok_def)
  let ?b1 = "(buffer d)[head d := moved_from (buffer d ! head d)]"
  let ?d1 = "d\<lparr>read := read d - 1, buffer := ?b1, head := (head d + 1) mod ?n\<rparr>"
  have g: "getHead moved_from (d\<lparr>read := read d - 1\<rparr>) = Inr (buffer d ! head d, ?d1)"
    using n h by (simp add: getHead_def)
  have "((head d + 1) mod ?n + (read d - 1)) mod ?n = (head d + 1 + (read d - 1)) mod ?n"
    by (rule mod_add_left_eq)
  also have "head d + 1 + (read d - 1) = head d + read d" using assms(2) by simp
  finally have t1: "(head d + read d) mod ?n = ((head d + 1) mod ?n + (read d - 1)) mod ?n"
    by simp
  have ok1: "ring_ok ?d1" using n c t t1 by (simp add: ring_ok_def)
  have ok2: "ring_ok (?d1\<lparr>write := release (write ?d1)\<rparr>)"
    using n c t t1 assms(2) by (simp add: ring_ok_def release_def)
  have upt: "[0..<read d] = 0 # map Suc [0..<read d - 1]"
    using assms(2) by (cases "read d") (simp_all add: upt_conv_Cons map_Suc_upt del: upt_Suc)
  have sh: "((head d + 1) mod ?n + i) mod ?n = (head d + Suc i) mod ?n" for i
    using mod_add_left_eq[of "head d + 1" ?n i] by simp
  have keep: "?b1 ! ((head d + Suc i) mod ?n) = buffer d ! ((head d + Suc i) mod ?n)"
    if "i < read d - 1" for i
  proof -
    from that c have "Suc i < ?n" by simp
    from mod_slot_distinct[OF _ this, of 0 "head d"] h
    have "head d \<noteq> (head d + Suc i) mod ?n" by simp
    then show ?thesis by simp
  qed
  have "pending ?d1 = map (\<lambda>i. ?b1 ! (((head d + 1) mod ?n + i) mod ?n)) [0..<read d - 1]"
    by (simp add: pending_def)
  also have "\<dots> = map (\<lambda>i. ?b1 ! ((head d + Suc i) mod ?n)) [0..<read d - 1]"
    by (simp only: sh)
  also have "\<dots> = map (\<lambda>i. buffer d ! ((head d + Suc i) mod ?n)) [0..<read d - 1]"
  proof (rule map_cong[OF refl])
    fix i
    assume "i \<in> set [0..<read d - 1]"
    then have "i < read d - 1" by simp
    from keep[OF this]
    show "?b1 ! ((head d + Suc i) mod ?n) = buffer d ! ((head d + Suc i) mod ?n)" .
  qed
  finally have p: "pending d = buffer d ! head d # pending ?d1"
    unfolding pending_def[of d] upt using h by (simp add: comp_def)
  have "pending (?d1\<lparr>write := release (write ?d1)\<rparr>) = pending ?d1"
    by (simp add: pending_def)
  with g ok1 ok2 p show ?thesis by simp
qed

section \<open>Each operation keeps the invariant\<close>

lemma send_ring:
  assumes "ring_ok d"
  shows "if 0 < write d
         then \<exists>d1. send v d = Inr ((), d1) \<and> ring_ok d1 \<and> length (buffer d1) = length (buffer d) \<and>
                open d1 = open d \<and> pending d1 = pending d @ [v]
         else send v d = Inl Blocked"
proof (cases "0 < write d")
  case True
  from writeTail_ring[OF assms True, of v] obtain d1 where
    "writeTail v (d\<lparr>write := write d - 1\<rparr>) = Inr d1"
    "ring_ok (d1\<lparr>read := release (read d1)\<rparr>)"
    "length (buffer d1) = length (buffer d)" "open d1 = open d"
    "pending (d1\<lparr>read := release (read d1)\<rparr>) = pending d @ [v]"
    by blast
  with True show ?thesis by (simp add: send_def acquire_def)
next
  case False
  then show ?thesis by (simp add: send_def acquire_def)
qed

lemma try_send_ring:
  assumes "ring_ok d"
  shows "if open d \<and> 0 < write d
         then \<exists>d1. try_send v d = Inr (True, d1) \<and> ring_ok d1 \<and>
                length (buffer d1) = length (buffer d) \<and> open d1 = open d \<and>
                pending d1 = pending d @ [v]
         else try_send v d = Inr (False, d)"
proof (cases "open d \<and> 0 < write d")
  case True
  then have w: "0 < write d" by simp
  from writeTail_ring[OF assms w, of v] obtain d1 where
    "writeTail v (d\<lparr>write := write d - 1\<rparr>) = Inr d1"
    "ring_ok (d1\<lparr>read := release (read d1)\<rparr>)"
    "length (buffer d1) = length (buffer d)" "open d1 = open d"
    "pending (d1\<lparr>read := release (read d1)\<rparr>) = pending d @ [v]"
    by blast
  with True show ?thesis by (simp add: try_send_def try_acquire_def)
next
  case False
  then show ?thesis by (auto simp: try_send_def try_acquire_def)
qed

lemma receive_ring:
  assumes "ring_ok d"
  shows "if 0 < read d
         then \<exists>v d1. receive moved_from d = Inr (v, d1) \<and> ring_ok d1 \<and>
                length (buffer d1) = length (buffer d) \<and> open d1 = open d \<and>
                pending d = v # pending d1
         else receive moved_from d = Inl Blocked"
proof (cases "0 < read d")
  case True
  from getHead_ring[OF assms True, where moved_from = moved_from] obtain v d1 where
    "getHead moved_from (d\<lparr>read := read d - 1\<rparr>) = Inr (v, d1)"
    "ring_ok (d1\<lparr>write := release (write d1)\<rparr>)"
    "length (buffer d1) = length (buffer d)" "open d1 = open d"
    "pending d = v # pending d1"
    "pending (d1\<lparr>write := release (write d1)\<rparr>) = pending d1"
    by blast
  with True show ?thesis by (simp add: receive_def acquire_def)
next
  case False
  then show ?thesis by (simp add: receive_def acquire_def)
qed

lemma try_receive_ring:
  assumes "ring_ok d"
  shows "if open d \<and> 0 < read d
         then \<exists>v d1. try_receive moved_from d = Inr (Some v, d1) \<and> ring_ok d1 \<and>
                length (buffer d1) = length (buffer d) \<and> open d1 = open d \<and>
                pending d = v # pending d1
         else try_receive moved_from d = Inr (None, d)"
proof (cases "open d \<and> 0 < read d")
  case True
  then have r: "0 < read d" by simp
  from getHead_ring[OF assms r, where moved_from = moved_from] obtain v d1 where
    "getHead moved_from (d\<lparr>read := read d - 1\<rparr>) = Inr (v, d1)" "ring_ok d1"
    "length (buffer d1) = length (buffer d)" "open d1 = open d"
    "pending d = v # pending d1"
    by blast
  with True show ?thesis by (simp add: try_receive_def try_acquire_def)
next
  case False
  then show ?thesis by (auto simp: try_receive_def try_acquire_def)
qed

lemma ring_ok_closed [simp]: "ring_ok (d\<lparr>open := False\<rparr>) = ring_ok d"
  by (simp add: ring_ok_def)

lemma pending_closed [simp]: "pending (d\<lparr>open := False\<rparr>) = pending d"
  by (simp add: pending_def)

lemma effect_ring:
  assumes "ring_ok d" "effect moved_from x d = Inr (ev, d1)"
  shows "ring_ok d1 \<and> length (buffer d1) = length (buffer d) \<and>
         pending d @ sent [ev] = received [ev] @ pending d1 \<and> (open d1 \<longrightarrow> open d)"
proof (cases x)
  case (Send v)
  with assms send_ring[OF assms(1), of v] show ?thesis
    by (cases "0 < write d") auto
next
  case (TrySend v)
  with assms try_send_ring[OF assms(1), of v] show ?thesis
    by (cases "open d \<and> 0 < write d") auto
next
  case Receive
  with assms receive_ring[OF assms(1), where moved_from = moved_from] show ?thesis
    by (cases "0 < read d") auto
next
  case TryReceive
  with assms try_receive_ring[OF assms(1), where moved_from = moved_from] show ?thesis
    by (cases "open d \<and> 0 < read d") auto
qed (use assms in auto)

lemma effect_error:
  assumes "ring_ok d" "effect moved_from x d = Inl e"
  shows "e = Blocked"
proof (cases x)
  case (Send v)
  with assms send_ring[OF assms(1), of v] show ?thesis
    by (cases "0 < write d") auto
next
  case (TrySend v)
  with assms try_send_ring[OF assms(1), of v] show ?thesis
    by (cases "open d \<and> 0 < write d") auto
next
  case Receive
  with assms receive_ring[OF assms(1), where moved_from = moved_from] show ?thesis
    by (cases "0 < read d") auto
next
  case TryReceive
  with assms try_receive_ring[OF assms(1), where moved_from = moved_from] show ?thesis
    by (cases "open d \<and> 0 < read d") auto
qed (use assms in auto)


section \<open>Handles that refer to one live cell\<close>

lemma cell_SomeD: "cell hp a = Some c \<Longrightarrow> a < length hp \<and> hp ! a = Some c"
  by (simp add: cell_def split: if_splits)

lemma cell_update: "a < length hp \<Longrightarrow> cell (hp[a := x]) a = x"
  by (simp add: cell_def)

lemma via_internal_cell:
  assumes "cell hp a = Some \<lparr>refs = n, obj = d\<rparr>"
  shows "via_internal (Some a) body hp =
           (case body d of
              Inl e \<Rightarrow> Inl e
            | Inr (r, d1) \<Rightarrow> Inr (r, hp[a := Some \<lparr>refs = n, obj = d1\<rparr>]))"
  using assms by (simp add: via_internal_def split: sum.splits)

lemma sp_copy_release:
  assumes "cell hp a = Some c" "0 < refs c"
  shows "\<exists>hp1. sp_copy (Some a) hp = Inr hp1 \<and> sp_release (Some a) hp1 = Inr hp"
proof -
  from assms(1) have a: "a < length hp" and c: "hp ! a = Some c"
    by (simp_all add: cell_SomeD)
  let ?hp1 = "hp[a := Some (c\<lparr>refs := refs c + 1\<rparr>)]"
  have 1: "sp_copy (Some a) hp = Inr ?hp1" using assms(1) by (simp add: sp_copy_def)
  have "cell ?hp1 a = Some (c\<lparr>refs := refs c + 1\<rparr>)" using a by (simp add: cell_update)
  then have "sp_release (Some a) ?hp1 = Inr (hp[a := Some c])"
    using assms(2) by (simp add: sp_release_def)
  also have "hp[a := Some c] = hp" using c list_update_id[of hp a] by simp
  finally show ?thesis using 1 by simp
qed

lemma ReceiverChannel_move_cell:
  assumes "rx_internal r = Some a" "cell hp a = Some c" "0 < refs c"
  shows "ReceiverChannel_move r hp = Inr ((r, ReceiverChannel None), hp)"
proof -
  from sp_copy_release[OF assms(2,3)] obtain hp1 where
    "sp_copy (Some a) hp = Inr hp1" "sp_release (Some a) hp1 = Inr hp" by blast
  moreover have "ReceiverChannel (Some a) = r" using assms(1) by (cases r) simp
  ultimately show ?thesis using assms(1) by (simp add: ReceiverChannel_move_def)
qed

lemma SenderChannel_move_cell:
  assumes "tx_internal t = Some a" "cell hp a = Some c" "0 < refs c"
  shows "SenderChannel_move t hp = Inr ((t, SenderChannel None), hp)"
proof -
  from sp_copy_release[OF assms(2,3)] obtain hp1 where
    "sp_copy (Some a) hp = Inr hp1" "sp_release (Some a) hp1 = Inr hp" by blast
  moreover have "SenderChannel (Some a) = t" using assms(1) by (cases t) simp
  ultimately show ?thesis using assms(1) by (simp add: SenderChannel_move_def)
qed

lemma destroy_spent:
  "ReceiverChannel_destroy (ReceiverChannel None) hp = Inr hp"
  "SenderChannel_destroy (SenderChannel None) hp = Inr hp"
  by (simp_all add: ReceiverChannel_destroy_def ReceiverChannel_close_def
      SenderChannel_destroy_def SenderChannel_close_def sp_release_def)

lemma step_attached:
  assumes "attached w a n d"
  shows "step moved_from x w =
           (case effect moved_from x d of
              Inl e \<Rightarrow> Inl e
            | Inr (ev, d1) \<Rightarrow> Inr (ev, (fst w, (snd w)[a := Some \<lparr>refs = n, obj = d1\<rparr>])))"
proof -
  obtain r t hp where w: "w = ((r, t), hp)" by (metis prod.collapse)
  from assms w have r: "rx_internal r = Some a" and t: "tx_internal t = Some a"
    and c: "cell hp a = Some \<lparr>refs = n, obj = d\<rparr>" and n: "0 < n"
    by (simp_all add: attached_def)
  from c have same: "hp[a := Some \<lparr>refs = n, obj = d\<rparr>] = hp"
    using cell_SomeD[OF c] list_update_id[of hp a] by simp
  note vi = via_internal_cell[OF c]
  show ?thesis
  proof (cases x)
    case (Send v)
    then show ?thesis using w t vi[of "send v"]
      by (simp add: SenderChannel_send_def split: sum.splits)
  next
    case (TrySend v)
    then show ?thesis using w t vi[of "try_send v"]
      by (simp add: SenderChannel_try_send_def split: sum.splits)
  next
    case Receive
    then show ?thesis using w r vi[of "receive moved_from"]
      by (simp add: ReceiverChannel_receive_def split: sum.splits)
  next
    case TryReceive
    then show ?thesis using w r vi[of "try_receive moved_from"]
      by (simp add: ReceiverChannel_try_receive_def split: sum.splits)
  next
    case RxClose
    then show ?thesis using w r vi[of mark_closed]
      by (simp add: ReceiverChannel_close_def mark_closed_def)
  next
    case TxClose
    then show ?thesis using w t vi[of mark_closed]
      by (simp add: SenderChannel_close_def mark_closed_def)
  next
    case RxIsOpen
    then show ?thesis using w r vi[of is_open] same
      by (simp add: ReceiverChannel_is_open_def is_open_def)
  next
    case TxIsOpen
    then show ?thesis using w t vi[of is_open] same
      by (simp add: SenderChannel_is_open_def is_open_def)
  next
    case RxMove
    have "ReceiverChannel_move r hp = Inr ((r, ReceiverChannel None), hp)"
      using ReceiverChannel_move_cell[OF r c] n by simp
    with RxMove show ?thesis using w same by (simp add: destroy_spent)
  next
    case TxMove
    have "SenderChannel_move t hp = Inr ((t, SenderChannel None), hp)"
      using SenderChannel_move_cell[OF t c] n by simp
    with TxMove show ?thesis using w same by (simp add: destroy_spent)
  qed
qed

lemma attached_update:
  assumes "attached w a n d"
  shows "attached (fst w, (snd w)[a := Some \<lparr>refs = n, obj = d1\<rparr>]) a n d1"
  using assms cell_SomeD[of "snd w" a] by (simp add: attached_def cell_update)

lemma step_attached_Inr:
  assumes "attached w a n d" "step moved_from x w = Inr (ev, w1)"
  shows "\<exists>d1. effect moved_from x d = Inr (ev, d1) \<and> attached w1 a n d1"
  using assms(2) attached_update[OF assms(1)]
  unfolding step_attached[OF assms(1)] by (auto split: sum.splits)

lemma step_attached_Inl:
  assumes "attached w a n d" "step moved_from x w = Inl e"
  shows "effect moved_from x d = Inl e"
  using assms(2) unfolding step_attached[OF assms(1)] by (auto split: sum.splits)

section \<open>Sequences of operations keep the invariant\<close>

lemma sent_Cons: "sent (ev # evs) = sent [ev] @ sent evs"
  by (cases "[ev]" rule: sent.cases) auto

lemma received_Cons: "received (ev # evs) = received [ev] @ received evs"
  by (cases "[ev]" rule: received.cases) auto

lemma run_attached:
  assumes "attached w a n d" "ring_ok d" "run moved_from xs w = Inr (evs, w1)"
  shows "\<exists>d1. attached w1 a n d1 \<and> ring_ok d1 \<and> length (buffer d1) = length (buffer d) \<and>
           pending d @ sent evs = received evs @ pending d1 \<and> (open d1 \<longrightarrow> open d)"
  using assms
proof (induction xs arbitrary: w d evs)
  case Nil
  then show ?case by auto
next
  case (Cons x xs)
  from Cons.prems(3) obtain ev w2 evs2 where
    s: "step moved_from x w = Inr (ev, w2)" and r: "run moved_from xs w2 = Inr (evs2, w1)" and e: "evs = ev # evs2"
    by (auto split: sum.splits)
  from step_attached_Inr[OF Cons.prems(1) s] obtain d2 where
    f: "effect moved_from x d = Inr (ev, d2)" and a2: "attached w2 a n d2" by blast
  from effect_ring[OF Cons.prems(2) f] have
    ok2: "ring_ok d2" and l2: "length (buffer d2) = length (buffer d)"
    and p2: "pending d @ sent [ev] = received [ev] @ pending d2" and o2: "open d2 \<longrightarrow> open d"
    by simp_all
  from Cons.IH[OF a2 ok2 r] obtain d1 where
    a1: "attached w1 a n d1" and ok1: "ring_ok d1"
    and l1: "length (buffer d1) = length (buffer d2)"
    and p1: "pending d2 @ sent evs2 = received evs2 @ pending d1" and o1: "open d1 \<longrightarrow> open d2"
    by blast
  have "pending d @ sent evs = (pending d @ sent [ev]) @ sent evs2"
    unfolding e by (subst sent_Cons) simp
  also have "\<dots> = received [ev] @ (pending d2 @ sent evs2)" using p2 by simp
  also have "\<dots> = received evs @ pending d1"
    unfolding e p1 by (subst (2) received_Cons) simp
  finally show ?case using a1 ok1 l1 l2 o1 o2 by auto
qed

lemma run_error:
  assumes "attached w a n d" "ring_ok d" "run moved_from xs w = Inl e"
  shows "e = Blocked"
  using assms
proof (induction xs arbitrary: w d)
  case Nil
  then show ?case by simp
next
  case (Cons x xs)
  show ?case
  proof (cases "step moved_from x w")
    case (Inl e1)
    with Cons.prems(3) have "e1 = e" by simp
    with step_attached_Inl[OF Cons.prems(1)] Inl effect_error[OF Cons.prems(2)]
    show ?thesis by blast
  next
    case (Inr p)
    obtain ev w2 where p: "p = (ev, w2)" by (cases p)
    with Inr Cons.prems(3) have r: "run moved_from xs w2 = Inl e" by (auto split: sum.splits)
    from step_attached_Inr[OF Cons.prems(1)] Inr p obtain d2 where
      f: "effect moved_from x d = Inr (ev, d2)" and a2: "attached w2 a n d2" by blast
    from effect_ring[OF Cons.prems(2) f] have "ring_ok d2" by simp
    from Cons.IH[OF a2 this r] show ?thesis .
  qed
qed

section \<open>The world that the factory returns\<close>

lemma create_channel_eq:
  "create_channel Size init hp =
     Inr ((ReceiverChannel (Some (length hp)), SenderChannel (Some (length hp))),
          hp @ [Some \<lparr>refs = 2, obj = Data_new Size init\<rparr>])"
  by (simp add: create_channel_def ReceiverChannel_new_def make_shared_def
      SenderChannel_new_def sp_copy_def cell_def ReceiverChannel_move_def
      SenderChannel_move_def sp_release_def destroy_spent)

lemma ring_ok_new: "ring_ok (Data_new Size init)"
  by (simp add: ring_ok_def Data_new_def)

lemma pending_new: "pending (Data_new Size init) = []"
  by (simp add: pending_def Data_new_def)

lemma attached_create:
  assumes "create_channel Size init hp = Inr w"
  shows "attached w (length hp) 2 (Data_new Size init)"
  using assms unfolding create_channel_eq by (auto simp: attached_def cell_def)

lemma shared_attached: "attached w a n d \<Longrightarrow> shared w = Some d"
  by (simp add: attached_def shared_def)

section \<open>The operations in closed form\<close>

lemma try_send_explicit:
  assumes "ring_ok d"
  shows "try_send v d =
           (if \<not> open d \<or> write d = 0 then Inr (False, d)
            else Inr (True, d\<lparr>write := write d - 1, buffer := (buffer d)[tail d := v],
                              tail := (tail d + 1) mod length (buffer d),
                              read := read d + 1\<rparr>))"
proof (cases "\<not> open d \<or> write d = 0")
  case True
  then show ?thesis by (auto simp: try_send_def try_acquire_def)
next
  case False
  with assms have "0 < length (buffer d)" by (auto simp: ring_ok_def)
  with assms have "tail d < length (buffer d)" by (simp add: ring_ok_def)
  with False show ?thesis
    by (simp add: try_send_def try_acquire_def writeTail_def release_def)
qed

text \<open>
  \<open>try_receive\<close> in closed form: where it returns a value, \<open>read\<close>, the slot at \<open>head\<close> and
  \<open>head\<close> change, and \<open>write\<close> does not.
\<close>

lemma try_receive_explicit:
  assumes "ring_ok d"
  shows "try_receive moved_from d =
           (if \<not> open d \<or> read d = 0 then Inr (None, d)
            else Inr (Some (buffer d ! head d),
                      d\<lparr>read := read d - 1,
                        buffer := (buffer d)[head d := moved_from (buffer d ! head d)],
                        head := (head d + 1) mod length (buffer d)\<rparr>))"
proof (cases "\<not> open d \<or> read d = 0")
  case True
  then show ?thesis by (auto simp: try_receive_def try_acquire_def)
next
  case False
  with assms have "0 < length (buffer d)" by (auto simp: ring_ok_def)
  with assms have "head d < length (buffer d)" by (simp add: ring_ok_def)
  with False show ?thesis
    by (auto simp: try_receive_def try_acquire_def getHead_def)
qed

lemma attached_cases:
  assumes "attached ((r, t), h) a n d"
  shows "rx_internal r = Some a" "tx_internal t = Some a"
    "cell h a = Some \<lparr>refs = n, obj = d\<rparr>" "0 < n"
  using assms by (simp_all add: attached_def)

lemma length_pending: "length (pending d) = read d"
  by (simp add: pending_def)

lemma effect_CloseRet: "effect moved_from x d = Inr (CloseRet, d1) \<Longrightarrow> \<not> open d1"
  by (cases x) (auto split: sum.splits prod.splits)

lemma run_after_close:
  assumes "attached w a n d" "ring_ok d" "run moved_from xs w = Inr (evs, w1)" "CloseRet \<in> set evs"
    "attached w1 a n d1"
  shows "\<not> open d1"
  using assms
proof (induction xs arbitrary: w d evs)
  case Nil
  then show ?case by simp
next
  case (Cons x xs)
  from Cons.prems(3) obtain ev w2 evs2 where
    s: "step moved_from x w = Inr (ev, w2)" and r: "run moved_from xs w2 = Inr (evs2, w1)" and e: "evs = ev # evs2"
    by (auto split: sum.splits)
  from step_attached_Inr[OF Cons.prems(1) s] obtain d2 where
    f: "effect moved_from x d = Inr (ev, d2)" and a2: "attached w2 a n d2" by blast
  from effect_ring[OF Cons.prems(2) f] have ok2: "ring_ok d2" by simp
  show ?case
  proof (cases "ev = CloseRet")
    case True
    with f have "\<not> open d2" using effect_CloseRet by blast
    moreover from run_attached[OF a2 ok2 r] obtain d3 where
      "attached w1 a n d3" "open d3 \<longrightarrow> open d2" by blast
    moreover have "d3 = d1"
      using shared_attached[OF \<open>attached w1 a n d3\<close>] shared_attached[OF Cons.prems(5)] by simp
    ultimately show ?thesis by simp
  next
    case False
    with Cons.prems(4) e have "CloseRet \<in> set evs2" by simp
    from Cons.IH[OF a2 ok2 r this Cons.prems(5)] show ?thesis .
  qed
qed

lemma close_cell:
  assumes "cell h a = Some \<lparr>refs = n, obj = d\<rparr>"
  shows "via_internal (Some a) mark_closed h =
           Inr ((), h[a := Some \<lparr>refs = n, obj = d\<lparr>open := False\<rparr>\<rparr>])"
  using assms by (simp add: via_internal_def mark_closed_def)

lemma run_closes:
  assumes "rx_internal r = Some a" "tx_internal t = Some a"
    "cell h a = Some \<lparr>refs = n, obj = d\<rparr>" "set cs \<subseteq> {RxClose, TxClose}" "cs \<noteq> []"
  shows "run moved_from cs ((r, t), h) =
           Inr (map (\<lambda>x. CloseRet) cs,
                ((r, t), h[a := Some \<lparr>refs = n, obj = d\<lparr>open := False\<rparr>\<rparr>]))"
  using assms(3-5)
proof (induction cs arbitrary: h d)
  case Nil
  then show ?case by simp
next
  case (Cons x cs)
  let ?h1 = "h[a := Some \<lparr>refs = n, obj = d\<lparr>open := False\<rparr>\<rparr>]"
  from Cons.prems(2) have x: "x = RxClose \<or> x = TxClose" by simp
  have s: "step moved_from x ((r, t), h) = Inr (CloseRet, ((r, t), ?h1))"
    using x assms(1,2) close_cell[OF Cons.prems(1)]
    by (auto simp: ReceiverChannel_close_def SenderChannel_close_def)
  show ?case
  proof (cases "cs = []")
    case True
    with s show ?thesis by simp
  next
    case False
    have c1: "cell ?h1 a = Some \<lparr>refs = n, obj = d\<lparr>open := False\<rparr>\<rparr>"
      using cell_SomeD[OF Cons.prems(1)] by (simp add: cell_update)
    from Cons.prems(2) have "set cs \<subseteq> {RxClose, TxClose}" by simp
    from Cons.IH[OF c1 this False] s show ?thesis by simp
  qed
qed

lemma destroy_cell:
  assumes "cell h a = Some \<lparr>refs = n, obj = d\<rparr>"
  shows "ReceiverChannel_destroy (ReceiverChannel (Some a)) h =
           Inr (h[a := (if n \<le> 1 then None
                        else Some \<lparr>refs = n - 1, obj = d\<lparr>open := False\<rparr>\<rparr>)])"
    and "SenderChannel_destroy (SenderChannel (Some a)) h =
           Inr (h[a := (if n \<le> 1 then None
                        else Some \<lparr>refs = n - 1, obj = d\<lparr>open := False\<rparr>\<rparr>)])"
proof -
  let ?h1 = "h[a := Some \<lparr>refs = n, obj = d\<lparr>open := False\<rparr>\<rparr>]"
  have "cell ?h1 a = Some \<lparr>refs = n, obj = d\<lparr>open := False\<rparr>\<rparr>"
    using cell_SomeD[OF assms] by (simp add: cell_update)
  then have "sp_release (Some a) ?h1 =
           Inr (h[a := (if n \<le> 1 then None
                        else Some \<lparr>refs = n - 1, obj = d\<lparr>open := False\<rparr>\<rparr>)])"
    by (simp add: sp_release_def)
  with close_cell[OF assms]
  show "ReceiverChannel_destroy (ReceiverChannel (Some a)) h =
           Inr (h[a := (if n \<le> 1 then None
                        else Some \<lparr>refs = n - 1, obj = d\<lparr>open := False\<rparr>\<rparr>)])"
    and "SenderChannel_destroy (SenderChannel (Some a)) h =
           Inr (h[a := (if n \<le> 1 then None
                        else Some \<lparr>refs = n - 1, obj = d\<lparr>open := False\<rparr>\<rparr>)])"
    by (simp_all add: ReceiverChannel_destroy_def ReceiverChannel_close_def
        SenderChannel_destroy_def SenderChannel_close_def)
qed

section \<open>C1: the two counters\<close>

text \<open>
  C1 says that \<open>read + write\<close> equals the capacity after every completed operation. On a
  channel of capacity 2, after \<open>try_send(10)\<close> has returned true and \<open>try_receive()\<close> has
  returned 10, the counters are 0 and 1: \<open>try_receive\<close> takes a readable slot and gives no
  writable slot back. \<open>receive\<close>, the blocking form, calls \<^verbatim>\<open>write.release()\<close> and leaves
  them at 0 and 2.
\<close>

theorem try_receive_loses_a_slot:
  "create_channel 2 (\<lambda>i. 0) [] =
     Inr (sample_world
        \<lparr>open = True, head = 0, tail = 0, buffer = [0, 0], read = 0, write = 2\<rparr>) \<and>
   run (\<lambda>x. x) [TrySend (10::nat), TryReceive]
     (sample_world
        \<lparr>open = True, head = 0, tail = 0, buffer = [0, 0], read = 0, write = 2\<rparr>) =
     Inr ([TrySendRet 10 True, TryReceiveRet (Some 10)],
          (sample_world
        \<lparr>open = True, head = 1, tail = 1, buffer = [10, 0], read = 0, write = 1\<rparr>)) \<and>
   map_option (\<lambda>d. read d + write d)
     (shared (sample_world
        \<lparr>open = True, head = 1, tail = 1, buffer = [10, 0], read = 0, write = 1\<rparr>)) = Some 1 \<and>
   run (\<lambda>x. x) [TrySend (10::nat), Receive]
     (sample_world
        \<lparr>open = True, head = 0, tail = 0, buffer = [0, 0], read = 0, write = 2\<rparr>) =
     Inr ([TrySendRet 10 True, ReceiveRet 10],
          (sample_world
        \<lparr>open = True, head = 1, tail = 1, buffer = [10, 0], read = 0, write = 2\<rparr>)) \<and>
   map_option (\<lambda>d. read d + write d)
     (shared (sample_world
        \<lparr>open = True, head = 1, tail = 1, buffer = [10, 0], read = 0, write = 2\<rparr>)) = Some 2"
  by code_simp

section \<open>C2: \<open>try_receive\<close>\<close>

text \<open>
  C2 says that a \<open>try_receive\<close> that returns a value also adds one to the writable counter.
  On the state with one element queued and one free slot it returns the element, takes
  one from \<open>read\<close>, advances \<open>head\<close> and leaves \<open>write\<close> at 1; \<open>receive\<close> on the same state
  leaves \<open>write\<close> at 2. (\<open>try_receive_explicit\<close> above gives the result of \<open>try_receive\<close> on
  every state of a channel; the rest of C2 agrees with it.)
\<close>

theorem try_receive_keeps_writable:
  "try_receive (\<lambda>x. x)
     \<lparr>open = True, head = 0, tail = 1, buffer = [10, 0::nat], read = 1, write = 1\<rparr> =
     Inr (Some 10,
          \<lparr>open = True, head = 1, tail = 1, buffer = [10, 0::nat], read = 0, write = 1\<rparr>) \<and>
   receive (\<lambda>x. x)
     \<lparr>open = True, head = 0, tail = 1, buffer = [10, 0::nat], read = 1, write = 1\<rparr> =
     Inr (10,
          \<lparr>open = True, head = 1, tail = 1, buffer = [10, 0::nat], read = 0, write = 2\<rparr>) \<and>
   ReceiverChannel_try_receive (\<lambda>x. x) sample_rx
     (sample_heap 2
        \<lparr>open = True, head = 0, tail = 1, buffer = [10, 0], read = 1, write = 1\<rparr>) =
     Inr (Some 10,
          (sample_heap 2
        \<lparr>open = True, head = 1, tail = 1, buffer = [10, 0], read = 0, write = 1\<rparr>))"
  by code_simp

section \<open>C3: \<open>try_send\<close>\<close>

text \<open>
  C3. In every state that a sequence of completed operations reaches from
  \<open>create_channel\<close>, \<open>try_send v\<close> returns false and leaves the whole heap as it is when the
  channel is closed or the writable counter is zero; in every other state it returns true,
  and the shared state differs from the old one in exactly this: \<open>write\<close> is one less, slot
  \<open>tail\<close> holds \<open>v\<close>, \<open>tail\<close> is \<open>(tail + 1) mod Size\<close>, and \<open>read\<close> is one more.
\<close>

theorem try_send_effect:
  assumes "create_channel Size init hp = Inr w0" and "run moved_from xs w0 = Inr (evs, ((r, t), h))"
  shows "\<exists>d. tx_internal t = Some (length hp) \<and>
              cell h (length hp) = Some \<lparr>refs = 2, obj = d\<rparr> \<and>
              length (buffer d) = Size \<and>
              SenderChannel_try_send t v h =
                (if \<not> open d \<or> write d = 0 then Inr (False, h)
                 else Inr (True,
                   h[length hp := Some \<lparr>refs = 2,
                       obj = d\<lparr>write := write d - 1, buffer := (buffer d)[tail d := v],
                               tail := (tail d + 1) mod Size, read := read d + 1\<rparr>\<rparr>]))"
proof -
  from run_attached[OF attached_create[OF assms(1)] ring_ok_new assms(2)]
  obtain d where a: "attached ((r, t), h) (length hp) 2 d" and ok: "ring_ok d"
    and l: "length (buffer d) = length (buffer (Data_new Size init))"
    by blast
  note ac = attached_cases[OF a]
  have n: "length (buffer d) = Size" using l by (simp add: Data_new_def)
  have same: "h[length hp := Some \<lparr>refs = 2, obj = d\<rparr>] = h"
    using cell_SomeD[OF ac(3)] list_update_id[of h "length hp"] by simp
  have "SenderChannel_try_send t v h =
          (if \<not> open d \<or> write d = 0 then Inr (False, h)
           else Inr (True,
             h[length hp := Some \<lparr>refs = 2,
                 obj = d\<lparr>write := write d - 1, buffer := (buffer d)[tail d := v],
                         tail := (tail d + 1) mod Size, read := read d + 1\<rparr>\<rparr>]))"
    unfolding SenderChannel_try_send_def ac(2) via_internal_cell[OF ac(3)]
      try_send_explicit[OF ok] n
    using same by simp
  with ac n show ?thesis by blast
qed

theorem try_send_effect_witness:
  "create_channel 2 (\<lambda>i. 0) [] =
     Inr (sample_world
        \<lparr>open = True, head = 0, tail = 0, buffer = [0, 0], read = 0, write = 2\<rparr>) \<and>
   run (\<lambda>x. x) [Send (1::nat)]
     (sample_world
        \<lparr>open = True, head = 0, tail = 0, buffer = [0, 0], read = 0, write = 2\<rparr>) =
     Inr ([SendRet 1],
          (sample_world
        \<lparr>open = True, head = 0, tail = 1, buffer = [1, 0], read = 1, write = 1\<rparr>)) \<and>
   SenderChannel_try_send sample_tx 7
     (sample_heap 2
        \<lparr>open = True, head = 0, tail = 1, buffer = [1, 0], read = 1, write = 1\<rparr>) =
     Inr (True,
          (sample_heap 2
        \<lparr>open = True, head = 0, tail = 0, buffer = [1, 7], read = 2, write = 0\<rparr>)) \<and>
   run (\<lambda>x. x) [Send (1::nat), TrySend 7]
     (sample_world
        \<lparr>open = True, head = 0, tail = 0, buffer = [0, 0], read = 0, write = 2\<rparr>) =
     Inr ([SendRet 1, TrySendRet 7 True],
          (sample_world
        \<lparr>open = True, head = 0, tail = 0, buffer = [1, 7], read = 2, write = 0\<rparr>)) \<and>
   SenderChannel_try_send sample_tx 9
     (sample_heap 2
        \<lparr>open = True, head = 0, tail = 0, buffer = [1, 7], read = 2, write = 0\<rparr>) =
     Inr (False,
          (sample_heap 2
        \<lparr>open = True, head = 0, tail = 0, buffer = [1, 7], read = 2, write = 0\<rparr>))"
proof -
  let ?w0 = "(sample_world
        \<lparr>open = True, head = 0, tail = 0, buffer = [0, 0], read = 0, write = 2\<rparr>)"
  let ?h1 = "(sample_heap 2
        \<lparr>open = True, head = 0, tail = 1, buffer = [1, 0], read = 1, write = 1\<rparr>)"
  let ?h2 = "(sample_heap 2
        \<lparr>open = True, head = 0, tail = 0, buffer = [1, 7], read = 2, write = 0\<rparr>)"
  have c: "create_channel 2 (\<lambda>i. 0::nat) [] = Inr ?w0" by code_simp
  have r1: "run (\<lambda>x. x) [Send (1::nat)] ?w0 = Inr ([SendRet 1], ((sample_rx, sample_tx), ?h1))"
    by code_simp
  have r2: "run (\<lambda>x. x) [Send (1::nat), TrySend 7] ?w0 =
              Inr ([SendRet 1, TrySendRet 7 True], ((sample_rx, sample_tx), ?h2))"
    by code_simp
  from try_send_effect[OF c r1, where v = 7]
  have 1: "SenderChannel_try_send sample_tx 7 ?h1 = Inr (True, ?h2)"
    by (simp add: cell_def)
  from try_send_effect[OF c r2, where v = 9]
  have 2: "SenderChannel_try_send sample_tx 9 ?h2 = Inr (False, ?h2)"
    by (simp add: cell_def)
  from c r1 r2 1 2 show ?thesis by blast
qed

section \<open>C4: delivery order\<close>

text \<open>
  C4. From a channel that \<open>create_channel\<close> returned, along any sequence of completed
  operations, the values returned by the successful receives (\<open>receive\<close>, or \<open>try_receive\<close>
  with a value) are the first values handed over by the successful sends (\<open>send\<close>, or
  \<open>try_send\<close> returning true), in the same order; when there have been as many receives as
  sends, the two sequences are equal: nothing is lost, duplicated or reordered. This holds
  whatever a move leaves behind in a slot (in the example, a moved-from element is 0).
\<close>

theorem fifo_order:
  assumes "create_channel Size init hp = Inr w0" and "run moved_from xs w0 = Inr (evs, w)"
  shows "received evs = take (length (received evs)) (sent evs) \<and>
         (length (received evs) = length (sent evs) \<longrightarrow> received evs = sent evs)"
proof -
  from run_attached[OF attached_create[OF assms(1)] ring_ok_new assms(2)]
  obtain d where "pending (Data_new Size init) @ sent evs = received evs @ pending d"
    by blast
  then have "sent evs = received evs @ pending d" by (simp add: pending_new)
  then show ?thesis by simp
qed

theorem fifo_order_witness:
  "create_channel 2 (\<lambda>i. 0) [] =
     Inr (sample_world
        \<lparr>open = True, head = 0, tail = 0, buffer = [0, 0], read = 0, write = 2\<rparr>) \<and>
   run (\<lambda>x. 0) [Send (1::nat), TrySend 2, Receive, Send 3, TryReceive, Receive]
     (sample_world
        \<lparr>open = True, head = 0, tail = 0, buffer = [0, 0], read = 0, write = 2\<rparr>) =
     Inr ([SendRet (1::nat), TrySendRet 2 True, ReceiveRet 1, SendRet 3,
         TryReceiveRet (Some 2), ReceiveRet 3],
          (sample_world
        \<lparr>open = True, head = 1, tail = 1, buffer = [0, 0], read = 0, write = 1\<rparr>)) \<and>
   sent [SendRet (1::nat), TrySendRet 2 True, ReceiveRet 1, SendRet 3,
         TryReceiveRet (Some 2), ReceiveRet 3] = [1, 2, 3] \<and>
   received [SendRet (1::nat), TrySendRet 2 True, ReceiveRet 1, SendRet 3,
         TryReceiveRet (Some 2), ReceiveRet 3] =
     sent [SendRet (1::nat), TrySendRet 2 True, ReceiveRet 1, SendRet 3,
         TryReceiveRet (Some 2), ReceiveRet 3]"
proof -
  let ?w0 = "(sample_world
        \<lparr>open = True, head = 0, tail = 0, buffer = [0, 0], read = 0, write = 2\<rparr>)"
  let ?evs = "[SendRet (1::nat), TrySendRet 2 True, ReceiveRet 1, SendRet 3,
         TryReceiveRet (Some 2), ReceiveRet 3]"
  have c: "create_channel 2 (\<lambda>i. 0::nat) [] = Inr ?w0" by code_simp
  have r: "run (\<lambda>x. 0) [Send 1, TrySend 2, Receive, Send 3, TryReceive, Receive] ?w0 =
     Inr (?evs,
          (sample_world
        \<lparr>open = True, head = 1, tail = 1, buffer = [0, 0], read = 0, write = 1\<rparr>))"
    by code_simp
  have s: "sent ?evs = [1, 2, 3]" by simp
  have l: "length (received ?evs) = length (sent ?evs)" by simp
  from fifo_order[OF c r] l have "received ?evs = sent ?evs" by blast
  with c r s show ?thesis by blast
qed

section \<open>C5: closed is final\<close>

text \<open>
  C5. Along any sequence of completed operations from \<open>create_channel\<close>: once a \<open>close\<close> of
  either handle has returned, the open flag is false; and from any state in which the flag
  is false, every state reached later has the flag false, and there \<open>try_send\<close> returns
  false and \<open>try_receive\<close> returns empty, both leaving the heap as it is.
\<close>

theorem closed_is_final:
  assumes "create_channel Size init hp = Inr w0" and "run moved_from xs w0 = Inr (evs1, w1)"
    and "run moved_from ys w1 = Inr (evs2, ((r, t), h))"
  shows "(CloseRet \<in> set evs1 \<longrightarrow> (\<exists>d1. shared w1 = Some d1 \<and> \<not> open d1)) \<and>
         ((\<exists>d1. shared w1 = Some d1 \<and> \<not> open d1) \<longrightarrow>
            (\<exists>d2. shared ((r, t), h) = Some d2 \<and> \<not> open d2 \<and>
                  SenderChannel_try_send t v h = Inr (False, h) \<and>
                  ReceiverChannel_try_receive moved_from r h = Inr (None, h)))"
proof -
  let ?a = "length hp"
  note a0 = attached_create[OF assms(1)]
  from run_attached[OF a0 ring_ok_new assms(2)]
  obtain d1 where a1: "attached w1 ?a 2 d1" and ok1: "ring_ok d1" by blast
  from run_attached[OF a1 ok1 assms(3)]
  obtain d2 where a2: "attached ((r, t), h) ?a 2 d2" and o: "open d2 \<longrightarrow> open d1" by blast
  note ac = attached_cases[OF a2]
  have same: "h[?a := Some \<lparr>refs = 2, obj = d2\<rparr>] = h"
    using cell_SomeD[OF ac(3)] list_update_id[of h ?a] by simp
  have first: "\<exists>d. shared w1 = Some d \<and> \<not> open d" if "CloseRet \<in> set evs1"
    using run_after_close[OF a0 ring_ok_new assms(2) that a1] shared_attached[OF a1] by simp
  have second: "\<exists>d. shared ((r, t), h) = Some d \<and> \<not> open d \<and>
                  SenderChannel_try_send t v h = Inr (False, h) \<and>
                  ReceiverChannel_try_receive moved_from r h = Inr (None, h)"
    if "\<exists>d. shared w1 = Some d \<and> \<not> open d"
  proof -
    from that shared_attached[OF a1] have "\<not> open d1" by simp
    with o have c: "\<not> open d2" by blast
    have "SenderChannel_try_send t v h = Inr (False, h)"
      unfolding SenderChannel_try_send_def ac(2) via_internal_cell[OF ac(3)]
      using c same by (simp add: try_send_def)
    moreover have "ReceiverChannel_try_receive moved_from r h = Inr (None, h)"
      unfolding ReceiverChannel_try_receive_def ac(1) via_internal_cell[OF ac(3)]
      using c same by (simp add: try_receive_def)
    ultimately show ?thesis using c shared_attached[OF a2] by simp
  qed
  from first second show ?thesis by blast
qed

theorem closed_is_final_witness:
  "create_channel 2 (\<lambda>i. 0) [] =
     Inr (sample_world
        \<lparr>open = True, head = 0, tail = 0, buffer = [0, 0], read = 0, write = 2\<rparr>) \<and>
   run (\<lambda>x. x) [TrySend (1::nat), RxClose]
     (sample_world
        \<lparr>open = True, head = 0, tail = 0, buffer = [0, 0], read = 0, write = 2\<rparr>) =
     Inr ([TrySendRet 1 True, CloseRet],
          (sample_world
        \<lparr>open = False, head = 0, tail = 1, buffer = [1, 0], read = 1, write = 1\<rparr>)) \<and>
   run (\<lambda>x. x) [TxClose, RxMove, TxIsOpen]
     (sample_world
        \<lparr>open = False, head = 0, tail = 1, buffer = [1, 0], read = 1, write = 1\<rparr>) =
     Inr ([CloseRet, MoveRet, IsOpenRet False],
          (sample_world
        \<lparr>open = False, head = 0, tail = 1, buffer = [1, 0], read = 1, write = 1\<rparr>)) \<and>
   CloseRet \<in> set [TrySendRet (1::nat) True, CloseRet] \<and>
   (\<exists>d. shared (sample_world
        \<lparr>open = False, head = 0, tail = 1, buffer = [1, 0], read = 1, write = 1\<rparr>) = Some d \<and> \<not> open d \<and>
        SenderChannel_try_send sample_tx 9
          (sample_heap 2
        \<lparr>open = False, head = 0, tail = 1, buffer = [1, 0], read = 1, write = 1\<rparr>) =
          Inr (False,
               (sample_heap 2
        \<lparr>open = False, head = 0, tail = 1, buffer = [1, 0], read = 1, write = 1\<rparr>)) \<and>
        ReceiverChannel_try_receive (\<lambda>x. x) sample_rx
          (sample_heap 2
        \<lparr>open = False, head = 0, tail = 1, buffer = [1, 0], read = 1, write = 1\<rparr>) =
          Inr (None,
               (sample_heap 2
        \<lparr>open = False, head = 0, tail = 1, buffer = [1, 0], read = 1, write = 1\<rparr>)))"
proof -
  let ?w0 = "(sample_world
        \<lparr>open = True, head = 0, tail = 0, buffer = [0, 0], read = 0, write = 2\<rparr>)"
  let ?w1 = "(sample_world
        \<lparr>open = False, head = 0, tail = 1, buffer = [1, 0], read = 1, write = 1\<rparr>)"
  have c: "create_channel 2 (\<lambda>i. 0::nat) [] = Inr ?w0" by code_simp
  have r1: "run (\<lambda>x. x) [TrySend (1::nat), RxClose] ?w0 = Inr ([TrySendRet 1 True, CloseRet], ?w1)"
    by code_simp
  have r2: "run (\<lambda>x. x) [TxClose, RxMove, TxIsOpen] ?w1 =
              Inr ([CloseRet, MoveRet, IsOpenRet False],
                   ((sample_rx, sample_tx),
                    (sample_heap 2
        \<lparr>open = False, head = 0, tail = 1, buffer = [1, 0], read = 1, write = 1\<rparr>)))"
    by code_simp
  have m: "CloseRet \<in> set [TrySendRet (1::nat) True, CloseRet]" by simp
  from closed_is_final[OF c r1 r2, where v = 9] m c r1 r2 show ?thesis by blast
qed

section \<open>C6: \<open>close\<close>\<close>

text \<open>
  C6. When both handles refer to a live shared state, \<open>close\<close> on either handle replaces
  the open flag by false and changes nothing else, in the shared state or elsewhere in the
  heap; and any non-empty sequence of \<open>close\<close> calls, on either handle in any order, ends in
  that same heap.
\<close>

theorem close_only_clears_open:
  assumes "rx_internal r = Some a" and "tx_internal t = Some a"
    and "cell h a = Some \<lparr>refs = n, obj = d\<rparr>"
  shows "ReceiverChannel_close r h =
           Inr ((), h[a := Some \<lparr>refs = n, obj = d\<lparr>open := False\<rparr>\<rparr>]) \<and>
         SenderChannel_close t h =
           Inr ((), h[a := Some \<lparr>refs = n, obj = d\<lparr>open := False\<rparr>\<rparr>]) \<and>
         (\<forall>cs. cs \<noteq> [] \<and> set cs \<subseteq> {RxClose, TxClose} \<longrightarrow>
            run moved_from cs ((r, t), h) =
              Inr (map (\<lambda>x. CloseRet) cs,
                   ((r, t), h[a := Some \<lparr>refs = n, obj = d\<lparr>open := False\<rparr>\<rparr>])))"
proof (intro conjI allI impI)
  show "ReceiverChannel_close r h =
           Inr ((), h[a := Some \<lparr>refs = n, obj = d\<lparr>open := False\<rparr>\<rparr>])"
    using assms(1) close_cell[OF assms(3)] by (simp add: ReceiverChannel_close_def)
  show "SenderChannel_close t h =
           Inr ((), h[a := Some \<lparr>refs = n, obj = d\<lparr>open := False\<rparr>\<rparr>])"
    using assms(2) close_cell[OF assms(3)] by (simp add: SenderChannel_close_def)
next
  fix cs :: "'a op list"
  assume "cs \<noteq> [] \<and> set cs \<subseteq> {RxClose, TxClose}"
  then show "run moved_from cs ((r, t), h) =
              Inr (map (\<lambda>x. CloseRet) cs,
                   ((r, t), h[a := Some \<lparr>refs = n, obj = d\<lparr>open := False\<rparr>\<rparr>]))"
    using run_closes[OF assms] by blast
qed

theorem close_only_clears_open_witness:
  "rx_internal sample_rx = Some 0 \<and>
   tx_internal sample_tx = Some 0 \<and>
   cell (sample_heap 2
        \<lparr>open = True, head = 0, tail = 1, buffer = [1, 0], read = 1, write = 1\<rparr>) 0 =
     Some \<lparr>refs = 2,
        obj = \<lparr>open = True, head = 0, tail = 1, buffer = [1, 0], read = 1, write = 1\<rparr>\<rparr> \<and>
   ReceiverChannel_close sample_rx
     (sample_heap 2
        \<lparr>open = True, head = 0, tail = 1, buffer = [1, 0], read = 1, write = 1\<rparr>) =
     Inr ((), (sample_heap 2
        \<lparr>open = False, head = 0, tail = 1, buffer = [1, 0], read = 1, write = 1\<rparr>)) \<and>
   SenderChannel_close sample_tx
     (sample_heap 2
        \<lparr>open = True, head = 0, tail = 1, buffer = [1, 0], read = 1, write = 1\<rparr>) =
     Inr ((), (sample_heap 2
        \<lparr>open = False, head = 0, tail = 1, buffer = [1, 0], read = 1, write = 1\<rparr>)) \<and>
   run (\<lambda>x. x) [TxClose, RxClose, RxClose, TxClose]
     (sample_world
        \<lparr>open = True, head = 0, tail = 1, buffer = [1, 0], read = 1, write = 1\<rparr>) =
     Inr ([CloseRet, CloseRet, CloseRet, CloseRet],
          (sample_world
        \<lparr>open = False, head = 0, tail = 1, buffer = [1, 0], read = 1, write = 1\<rparr>))"
proof -
  let ?d = "\<lparr>open = True, head = 0, tail = 1, buffer = [1, 0], read = 1, write = 1\<rparr>"
  let ?h = "sample_heap 2 ?d"
  let ?h1 = "(sample_heap 2
        \<lparr>open = False, head = 0, tail = 1, buffer = [1, 0], read = 1, write = 1\<rparr>)"
  have r: "rx_internal sample_rx = Some 0" by simp
  have t: "tx_internal sample_tx = Some 0" by simp
  have c: "cell ?h 0 = Some \<lparr>refs = 2, obj = ?d\<rparr>" by (simp add: cell_def)
  have l: "[TxClose, RxClose, RxClose, TxClose] \<noteq> [] \<and>
           set [TxClose, RxClose, RxClose, TxClose] \<subseteq> {RxClose, TxClose}"
    by simp
  note k = close_only_clears_open[OF r t c, where moved_from = "\<lambda>x. x"]
  from k have 1: "ReceiverChannel_close sample_rx ?h = Inr ((), ?h1)" by simp
  from k have 2: "SenderChannel_close sample_tx ?h = Inr ((), ?h1)" by simp
  from k have "cs \<noteq> [] \<and> set cs \<subseteq> {RxClose, TxClose} \<Longrightarrow>
            run (\<lambda>x. x) cs ((sample_rx, sample_tx), ?h) =
              Inr (map (\<lambda>x. CloseRet) cs, ((sample_rx, sample_tx), ?h1))" for cs
    by simp
  from this[OF l]
  have 3: "run (\<lambda>x. x) [TxClose, RxClose, RxClose, TxClose] ((sample_rx, sample_tx), ?h) =
     Inr ([CloseRet, CloseRet, CloseRet, CloseRet], ((sample_rx, sample_tx), ?h1))"
    by (simp only: list.map)
  from r t c 1 2 3 show ?thesis by blast
qed

section \<open>C7: round trip\<close>

text \<open>
  C7. In every state that a sequence of completed operations reaches from
  \<open>create_channel\<close>, if the channel is open, nothing is queued (\<open>read = 0\<close>) and a slot is
  free (\<open>write \<ge> 1\<close>), then \<open>try_send x\<close> returns true and a \<open>try_receive\<close> right after it
  returns \<open>x\<close>.
\<close>

theorem round_trip:
  assumes "create_channel Size init hp = Inr w0" and "run moved_from xs w0 = Inr (evs, ((r, t), h))"
    and "shared ((r, t), h) = Some d" and "open d" and "read d = 0" and "1 \<le> write d"
  shows "\<exists>h1 h2. SenderChannel_try_send t x h = Inr (True, h1) \<and>
                 ReceiverChannel_try_receive moved_from r h1 = Inr (Some x, h2)"
proof -
  let ?a = "length hp"
  from run_attached[OF attached_create[OF assms(1)] ring_ok_new assms(2)]
  obtain d0 where a: "attached ((r, t), h) ?a 2 d0" and ok0: "ring_ok d0" by blast
  from shared_attached[OF a] assms(3) have "d0 = d" by simp
  with a ok0 have a: "attached ((r, t), h) ?a 2 d" and ok: "ring_ok d" by simp_all
  note ac = attached_cases[OF a]
  have "pending d = []" using assms(5) by (simp add: pending_def)
  with try_send_ring[OF ok, of x] assms(4,6) obtain d1 where
    s: "try_send x d = Inr (True, d1)" and ok1: "ring_ok d1" and o1: "open d1"
    and p1: "pending d1 = [x]"
    by auto
  let ?h1 = "h[?a := Some \<lparr>refs = 2, obj = d1\<rparr>]"
  have 1: "SenderChannel_try_send t x h = Inr (True, ?h1)"
    unfolding SenderChannel_try_send_def ac(2) via_internal_cell[OF ac(3)] s by simp
  have c1: "cell ?h1 ?a = Some \<lparr>refs = 2, obj = d1\<rparr>"
    using cell_SomeD[OF ac(3)] by (simp add: cell_update)
  from p1 have "read d1 = 1" using length_pending[of d1] by simp
  with try_receive_ring[OF ok1, where moved_from = moved_from] o1 p1 obtain v d2 where
    "try_receive moved_from d1 = Inr (Some v, d2)" "[x] = v # pending d2"
    by auto
  then have "try_receive moved_from d1 = Inr (Some x, d2)" by simp
  then have "ReceiverChannel_try_receive moved_from r ?h1 =
               Inr (Some x, ?h1[?a := Some \<lparr>refs = 2, obj = d2\<rparr>])"
    unfolding ReceiverChannel_try_receive_def ac(1) via_internal_cell[OF c1] by simp
  with 1 show ?thesis by blast
qed

theorem round_trip_witness:
  "create_channel 2 (\<lambda>i. 0) [] =
     Inr (sample_world
        \<lparr>open = True, head = 0, tail = 0, buffer = [0, 0], read = 0, write = 2\<rparr>) \<and>
   run (\<lambda>x. x) [Send (1::nat), Receive]
     (sample_world
        \<lparr>open = True, head = 0, tail = 0, buffer = [0, 0], read = 0, write = 2\<rparr>) =
     Inr ([SendRet 1, ReceiveRet 1],
          (sample_world
        \<lparr>open = True, head = 1, tail = 1, buffer = [1, 0], read = 0, write = 2\<rparr>)) \<and>
   shared (sample_world
        \<lparr>open = True, head = 1, tail = 1, buffer = [1, 0], read = 0, write = 2\<rparr>) =
     Some \<lparr>open = True, head = 1, tail = 1, buffer = [1, 0], read = 0, write = 2\<rparr> \<and>
   open \<lparr>open = True, head = 1, tail = 1, buffer = [1, 0], read = 0, write = 2\<rparr> \<and>
   read \<lparr>open = True, head = 1, tail = 1, buffer = [1, 0], read = 0, write = 2\<rparr> = 0 \<and>
   1 \<le> write \<lparr>open = True, head = 1, tail = 1, buffer = [1, 0], read = 0, write = 2\<rparr> \<and>
   (\<exists>h1 h2.
      SenderChannel_try_send sample_tx 5
        (sample_heap 2
        \<lparr>open = True, head = 1, tail = 1, buffer = [1, 0], read = 0, write = 2\<rparr>) = Inr (True, h1) \<and>
      ReceiverChannel_try_receive (\<lambda>x. x) sample_rx h1 = Inr (Some 5, h2))"
proof -
  let ?w0 = "(sample_world
        \<lparr>open = True, head = 0, tail = 0, buffer = [0, 0], read = 0, write = 2\<rparr>)"
  let ?d = "\<lparr>open = True, head = 1, tail = 1, buffer = [1, 0], read = 0, write = 2\<rparr>"
  let ?h = "sample_heap 2 ?d"
  have c: "create_channel 2 (\<lambda>i. 0::nat) [] = Inr ?w0" by code_simp
  have r: "run (\<lambda>x. x) [Send (1::nat), Receive] ?w0 =
             Inr ([SendRet 1, ReceiveRet 1], ((sample_rx, sample_tx), ?h))"
    by code_simp
  have s: "shared ((sample_rx, sample_tx), ?h) = Some ?d" by code_simp
  have o: "open ?d" "read ?d = 0" "1 \<le> write ?d" by simp_all
  from round_trip[OF c r s o, where x = 5] c r s o show ?thesis by blast
qed

section \<open>C8: a fresh channel\<close>

text \<open>
  C8. \<open>create_channel\<close> returns two handles that refer to one newly allocated shared state
  with \<open>open = true\<close>, \<open>head = 0\<close>, \<open>tail = 0\<close>, \<open>read = 0\<close> and \<open>write = Size\<close>, held by two
  references; and \<open>try_receive\<close> on that channel returns empty and changes nothing.
\<close>

theorem create_channel_initial:
  "create_channel Size init hp =
     Inr ((ReceiverChannel (Some (length hp)), SenderChannel (Some (length hp))),
          hp @ [Some \<lparr>refs = 2,
                      obj = \<lparr>open = True, head = 0, tail = 0, buffer = map init [0..<Size],
                             read = 0, write = Size\<rparr>\<rparr>]) \<and>
   ReceiverChannel_try_receive moved_from (ReceiverChannel (Some (length hp)))
     (hp @ [Some \<lparr>refs = 2,
                 obj = \<lparr>open = True, head = 0, tail = 0, buffer = map init [0..<Size],
                        read = 0, write = Size\<rparr>\<rparr>]) =
     Inr (None,
          hp @ [Some \<lparr>refs = 2,
                      obj = \<lparr>open = True, head = 0, tail = 0, buffer = map init [0..<Size],
                             read = 0, write = Size\<rparr>\<rparr>])"
  by (simp add: create_channel_eq Data_new_def ReceiverChannel_try_receive_def
      via_internal_def cell_def try_receive_def try_acquire_def)

theorem create_channel_initial_witness:
  "create_channel 2 (\<lambda>i. 0) [] =
     Inr (sample_world
        \<lparr>open = True, head = 0, tail = 0, buffer = [0, 0], read = 0, write = 2\<rparr>) \<and>
   ReceiverChannel_try_receive (\<lambda>x. x) sample_rx
     (sample_heap 2
        \<lparr>open = True, head = 0, tail = 0, buffer = [0, 0], read = 0, write = 2\<rparr>) =
     Inr (None,
          (sample_heap 2
        \<lparr>open = True, head = 0, tail = 0, buffer = [0, 0], read = 0, write = 2\<rparr>))"
  using create_channel_initial[of 2 "\<lambda>i. 0::nat" "[]"] by (simp add: upt_rec)

section \<open>C9: moved-from handles\<close>

text \<open>
  C9. For a live shared state with at least one reference: moving the receiver or the
  sender handle gives the new handle the pointer, leaves the donor null and leaves the heap,
  and so the open flag, as it was; \<open>close\<close> on a null handle and the destruction of a null
  handle change nothing; \<open>is_open\<close> on the owning handle still reports the flag; and only
  \<open>close\<close> on, or the destruction of, the owning handle sets the flag to false (the
  destruction also gives up one reference, and frees the state with the last one).
\<close>

theorem moved_from_handle_is_inert:
  assumes "cell h a = Some \<lparr>refs = n, obj = d\<rparr>" and "0 < n"
  shows "ReceiverChannel_move (ReceiverChannel (Some a)) h =
           Inr ((ReceiverChannel (Some a), ReceiverChannel None), h) \<and>
         SenderChannel_move (SenderChannel (Some a)) h =
           Inr ((SenderChannel (Some a), SenderChannel None), h) \<and>
         ReceiverChannel_close (ReceiverChannel None) h = Inr ((), h) \<and>
         SenderChannel_close (SenderChannel None) h = Inr ((), h) \<and>
         ReceiverChannel_destroy (ReceiverChannel None) h = Inr h \<and>
         SenderChannel_destroy (SenderChannel None) h = Inr h \<and>
         ReceiverChannel_is_open (ReceiverChannel (Some a)) h = Inr (open d, h) \<and>
         SenderChannel_is_open (SenderChannel (Some a)) h = Inr (open d, h) \<and>
         ReceiverChannel_close (ReceiverChannel (Some a)) h =
           Inr ((), h[a := Some \<lparr>refs = n, obj = d\<lparr>open := False\<rparr>\<rparr>]) \<and>
         SenderChannel_close (SenderChannel (Some a)) h =
           Inr ((), h[a := Some \<lparr>refs = n, obj = d\<lparr>open := False\<rparr>\<rparr>]) \<and>
         ReceiverChannel_destroy (ReceiverChannel (Some a)) h =
           Inr (h[a := (if n \<le> 1 then None
                        else Some \<lparr>refs = n - 1, obj = d\<lparr>open := False\<rparr>\<rparr>)]) \<and>
         SenderChannel_destroy (SenderChannel (Some a)) h =
           Inr (h[a := (if n \<le> 1 then None
                        else Some \<lparr>refs = n - 1, obj = d\<lparr>open := False\<rparr>\<rparr>)])"
proof -
  have same: "h[a := Some \<lparr>refs = n, obj = d\<rparr>] = h"
    using cell_SomeD[OF assms(1)] list_update_id[of h a] by simp
  have m1: "ReceiverChannel_move (ReceiverChannel (Some a)) h =
           Inr ((ReceiverChannel (Some a), ReceiverChannel None), h)"
    using ReceiverChannel_move_cell[OF _ assms(1), of "ReceiverChannel (Some a)"] assms(2)
    by simp
  have m2: "SenderChannel_move (SenderChannel (Some a)) h =
           Inr ((SenderChannel (Some a), SenderChannel None), h)"
    using SenderChannel_move_cell[OF _ assms(1), of "SenderChannel (Some a)"] assms(2)
    by simp
  have n: "ReceiverChannel_close (ReceiverChannel None) h = Inr ((), h)"
    "SenderChannel_close (SenderChannel None) h = Inr ((), h)"
    by (simp_all add: ReceiverChannel_close_def SenderChannel_close_def)
  have o: "ReceiverChannel_is_open (ReceiverChannel (Some a)) h = Inr (open d, h)"
    "SenderChannel_is_open (SenderChannel (Some a)) h = Inr (open d, h)"
    using assms(1) same
    by (simp_all add: ReceiverChannel_is_open_def SenderChannel_is_open_def
        via_internal_def is_open_def)
  have c: "ReceiverChannel_close (ReceiverChannel (Some a)) h =
           Inr ((), h[a := Some \<lparr>refs = n, obj = d\<lparr>open := False\<rparr>\<rparr>])"
    "SenderChannel_close (SenderChannel (Some a)) h =
           Inr ((), h[a := Some \<lparr>refs = n, obj = d\<lparr>open := False\<rparr>\<rparr>])"
    using close_cell[OF assms(1)]
    by (simp_all add: ReceiverChannel_close_def SenderChannel_close_def)
  from m1 m2 n o c destroy_spent[of h] destroy_cell[OF assms(1)] show ?thesis by blast
qed

theorem moved_from_handle_is_inert_witness:
  "cell (sample_heap 2
        \<lparr>open = True, head = 0, tail = 1, buffer = [1, 0], read = 1, write = 1\<rparr>) 0 =
     Some \<lparr>refs = 2,
        obj = \<lparr>open = True, head = 0, tail = 1, buffer = [1, 0], read = 1, write = 1\<rparr>\<rparr> \<and>
   (0::nat) < 2 \<and>
   ReceiverChannel_move sample_rx
     (sample_heap 2
        \<lparr>open = True, head = 0, tail = 1, buffer = [1, 0], read = 1, write = 1\<rparr>) =
     Inr ((sample_rx, ReceiverChannel None),
          (sample_heap 2
        \<lparr>open = True, head = 0, tail = 1, buffer = [1, 0], read = 1, write = 1\<rparr>)) \<and>
   SenderChannel_move sample_tx
     (sample_heap 2
        \<lparr>open = True, head = 0, tail = 1, buffer = [1, 0], read = 1, write = 1\<rparr>) =
     Inr ((sample_tx, SenderChannel None),
          (sample_heap 2
        \<lparr>open = True, head = 0, tail = 1, buffer = [1, 0], read = 1, write = 1\<rparr>)) \<and>
   ReceiverChannel_close (ReceiverChannel None)
     (sample_heap 2
        \<lparr>open = True, head = 0, tail = 1, buffer = [1, 0], read = 1, write = 1\<rparr>) =
     Inr ((), (sample_heap 2
        \<lparr>open = True, head = 0, tail = 1, buffer = [1, 0], read = 1, write = 1\<rparr>)) \<and>
   SenderChannel_destroy (SenderChannel None)
     (sample_heap 2
        \<lparr>open = True, head = 0, tail = 1, buffer = [1, 0], read = 1, write = 1\<rparr>) =
     Inr (sample_heap 2
        \<lparr>open = True, head = 0, tail = 1, buffer = [1, 0], read = 1, write = 1\<rparr>) \<and>
   SenderChannel_is_open sample_tx
     (sample_heap 2
        \<lparr>open = True, head = 0, tail = 1, buffer = [1, 0], read = 1, write = 1\<rparr>) =
     Inr (True, (sample_heap 2
        \<lparr>open = True, head = 0, tail = 1, buffer = [1, 0], read = 1, write = 1\<rparr>)) \<and>
   ReceiverChannel_destroy sample_rx
     (sample_heap 2
        \<lparr>open = True, head = 0, tail = 1, buffer = [1, 0], read = 1, write = 1\<rparr>) =
     Inr (sample_heap 1
        \<lparr>open = False, head = 0, tail = 1, buffer = [1, 0], read = 1, write = 1\<rparr>)"
proof -
  let ?d = "\<lparr>open = True, head = 0, tail = 1, buffer = [1, 0], read = 1, write = 1\<rparr>"
  let ?h = "sample_heap 2 ?d"
  have c: "cell ?h 0 = Some \<lparr>refs = 2, obj = ?d\<rparr>" by (simp add: cell_def)
  have p: "(0::nat) < 2" by simp
  from moved_from_handle_is_inert[OF c p]
  have "ReceiverChannel_move sample_rx ?h = Inr ((sample_rx, ReceiverChannel None), ?h)"
    and "SenderChannel_move sample_tx ?h = Inr ((sample_tx, SenderChannel None), ?h)"
    and "ReceiverChannel_close (ReceiverChannel None) ?h = Inr ((), ?h)"
    and "SenderChannel_destroy (SenderChannel None) ?h = Inr ?h"
    and "SenderChannel_is_open sample_tx ?h = Inr (True, ?h)"
    and "ReceiverChannel_destroy sample_rx ?h =
           Inr (sample_heap 1
        \<lparr>open = False, head = 0, tail = 1, buffer = [1, 0], read = 1, write = 1\<rparr>)"
    by simp_all
  with c p show ?thesis by blast
qed

section \<open>C10: indices stay inside the array\<close>

text \<open>
  C10. On a channel of positive capacity, no sequence of operations from \<open>create_channel\<close>
  reads or writes the array out of bounds or divides by zero: a sequence either completes
  or stops at a blocking call that has to wait. In every state a sequence reaches, the
  array has \<open>Size\<close> elements and \<open>head\<close> and \<open>tail\<close> are below \<open>Size\<close>.
\<close>

theorem indices_in_bounds:
  assumes "0 < Size" and "create_channel Size init hp = Inr w0"
  shows "(\<forall>e. run moved_from xs w0 = Inl e \<longrightarrow> e = Blocked) \<and>
         (\<forall>evs w. run moved_from xs w0 = Inr (evs, w) \<longrightarrow>
            (\<exists>d. shared w = Some d \<and> length (buffer d) = Size \<and>
                 head d < Size \<and> tail d < Size))"
proof (intro conjI allI impI)
  fix e
  assume "run moved_from xs w0 = Inl e"
  from run_error[OF attached_create[OF assms(2)] ring_ok_new this]
  show "e = Blocked" .
next
  fix evs w
  assume "run moved_from xs w0 = Inr (evs, w)"
  from run_attached[OF attached_create[OF assms(2)] ring_ok_new this]
  obtain d where a: "attached w (length hp) 2 d" and ok: "ring_ok d"
    and l: "length (buffer d) = length (buffer (Data_new Size init))"
    by blast
  have n: "length (buffer d) = Size" using l by (simp add: Data_new_def)
  with ok assms(1) have "head d < Size" and "tail d = (head d + read d) mod Size"
    by (simp_all add: ring_ok_def)
  with assms(1) n shared_attached[OF a]
  show "\<exists>d. shared w = Some d \<and> length (buffer d) = Size \<and> head d < Size \<and> tail d < Size"
    by simp
qed

theorem indices_in_bounds_witness:
  "(0::nat) < 2 \<and>
   create_channel 2 (\<lambda>i. 0) [] =
     Inr (sample_world
        \<lparr>open = True, head = 0, tail = 0, buffer = [0, 0], read = 0, write = 2\<rparr>) \<and>
   run (\<lambda>x. x) [Send (1::nat), Send 2, Receive, Send 3]
     (sample_world
        \<lparr>open = True, head = 0, tail = 0, buffer = [0, 0], read = 0, write = 2\<rparr>) =
     Inr ([SendRet 1, SendRet 2, ReceiveRet 1, SendRet 3],
          (sample_world
        \<lparr>open = True, head = 1, tail = 1, buffer = [3, 2], read = 2, write = 0\<rparr>)) \<and>
   (\<exists>d. shared (sample_world
        \<lparr>open = True, head = 1, tail = 1, buffer = [3, 2], read = 2, write = 0\<rparr>) = Some d \<and>
        length (buffer d) = 2 \<and> head d < 2 \<and> tail d < 2) \<and>
   run (\<lambda>x. x) [Send (1::nat), Send 2, Send 3]
     (sample_world
        \<lparr>open = True, head = 0, tail = 0, buffer = [0, 0], read = 0, write = 2\<rparr>) = Inl Blocked"
proof -
  let ?w0 = "(sample_world
        \<lparr>open = True, head = 0, tail = 0, buffer = [0, 0], read = 0, write = 2\<rparr>)"
  let ?w1 = "(sample_world
        \<lparr>open = True, head = 1, tail = 1, buffer = [3, 2], read = 2, write = 0\<rparr>)"
  have p: "(0::nat) < 2" by simp
  have c: "create_channel 2 (\<lambda>i. 0::nat) [] = Inr ?w0" by code_simp
  have r: "run (\<lambda>x. x) [Send (1::nat), Send 2, Receive, Send 3] ?w0 =
     Inr ([SendRet 1, SendRet 2, ReceiveRet 1, SendRet 3], ?w1)"
    by code_simp
  have b: "run (\<lambda>x. x) [Send (1::nat), Send 2, Send 3] ?w0 = Inl Blocked" by code_simp
  from indices_in_bounds[OF p c, where moved_from = "\<lambda>x. x"
      and xs = "[Send 1, Send 2, Receive, Send 3]"] r
  have "\<exists>d. shared ?w1 = Some d \<and> length (buffer d) = 2 \<and> head d < 2 \<and> tail d < 2"
    by blast
  with p c r b show ?thesis by blast
qed

end
